theory Spec2Isabelle
  imports Complex_Main "HOL-Library.Word" "HOL-Library.Monad_Syntax"
begin

unbundle bit_operations_syntax

section \<open>c64koala2ppm: KoalaPaint to Portable Pixmap\<close>

text \<open>
  A shallow embedding of \<^verbatim>\<open>c64koala2ppm.c\<close>. Bytes are \<open>8 word\<close>, C \<^verbatim>\<open>int\<close>
  values are \<open>int\<close>, C arrays are lists read and written through checked accessors, and
  an access that the C standard leaves undefined (an index out of range, a read of a
  pixel that was never stored) is the value \<open>None\<close>. Floating-point values are
  those of IEEE 754, with the infinities and NaN.
\<close>

type_synonym byte = "8 word"

subsection \<open>Arrays and loops\<close>

text \<open>\<^verbatim>\<open>a[i]\<close> as an rvalue and \<^verbatim>\<open>a[i] = v\<close>: defined only inside the array.\<close>

definition arr_get :: "'a list \<Rightarrow> int \<Rightarrow> 'a option" where
  "arr_get xs i = (if 0 \<le> i \<and> i < int (length xs) then Some (xs ! nat i) else None)"

definition arr_set :: "'a list \<Rightarrow> int \<Rightarrow> 'a \<Rightarrow> 'a list option" where
  "arr_set xs i v = (if 0 \<le> i \<and> i < int (length xs) then Some (xs[nat i := v]) else None)"

text \<open>\<^verbatim>\<open>for (i = lo; i < n; ++i) body\<close>, the body working on a state that it may fail on.\<close>

function for_loop :: "int \<Rightarrow> int \<Rightarrow> (int \<Rightarrow> 's \<Rightarrow> 's option) \<Rightarrow> 's \<Rightarrow> 's option" where
  "for_loop i n body s =
     (if i < n then (case body i s of None \<Rightarrow> None | Some s' \<Rightarrow> for_loop (i + 1) n body s')
      else Some s)"
  by pat_completeness auto
termination
  by (relation "measure (\<lambda>(i, n, body, s). nat (n - i))") auto

declare for_loop.simps [simp del]

text \<open>C's integer division truncates towards zero.\<close>

definition c_div :: "int \<Rightarrow> int \<Rightarrow> int" where
  "c_div a b = sgn a * sgn b * (\<bar>a\<bar> div \<bar>b\<bar>)"

text \<open>
  \<^verbatim>\<open>c >> n\<close> on an \<^verbatim>\<open>int\<close>: the arithmetic shift that compilers implement for a negative
  left operand (the sign is copied in from the left).
\<close>

definition shr :: "int \<Rightarrow> int \<Rightarrow> int" where
  "shr c n = drop_bit (nat n) c"

text \<open>
  The value of a plain \<^verbatim>\<open>char\<close> object after promotion to \<^verbatim>\<open>int\<close>. Whether \<^verbatim>\<open>char\<close> is
  signed is the platform's choice, so it is a parameter of the model.
\<close>

definition char_val :: "bool \<Rightarrow> byte \<Rightarrow> int" where
  "char_val signed_char w = (if signed_char then sint w else uint w)"

subsection \<open>Floating point\<close>

text \<open>
  A \<^verbatim>\<open>float\<close> or \<^verbatim>\<open>double\<close> value is a finite number, an infinity or NaN; the two
  zeros are one value, since they compare equal. An operation on finite values is the
  exact operation followed by the rounding \<open>rd\<close> of the result type, which gives an
  infinity when the result is too large; the other cases are those of IEEE 754.
\<close>

datatype fval = Fin real | PInf | MInf | NaN

fun f_neg :: "fval \<Rightarrow> fval" where
  "f_neg (Fin x) = Fin (- x)"
| "f_neg PInf = MInf"
| "f_neg MInf = PInf"
| "f_neg NaN = NaN"

fun f_sign :: "fval \<Rightarrow> real" where
  "f_sign (Fin x) = sgn x"
| "f_sign PInf = 1"
| "f_sign MInf = - 1"
| "f_sign NaN = 0"

fun f_add :: "(real \<Rightarrow> fval) \<Rightarrow> fval \<Rightarrow> fval \<Rightarrow> fval" where
  "f_add rd (Fin x) (Fin y) = rd (x + y)"
| "f_add rd NaN b = NaN"
| "f_add rd a NaN = NaN"
| "f_add rd PInf MInf = NaN"
| "f_add rd MInf PInf = NaN"
| "f_add rd PInf b = PInf"
| "f_add rd a PInf = PInf"
| "f_add rd MInf b = MInf"
| "f_add rd a MInf = MInf"

fun f_mul :: "(real \<Rightarrow> fval) \<Rightarrow> fval \<Rightarrow> fval \<Rightarrow> fval" where
  "f_mul rd (Fin x) (Fin y) = rd (x * y)"
| "f_mul rd NaN b = NaN"
| "f_mul rd a NaN = NaN"
| "f_mul rd a b =
     (if f_sign a * f_sign b = 0 then NaN
      else if 0 < f_sign a * f_sign b then PInf else MInf)"

text \<open>Division by a constant that is finite and not zero, as in \<^verbatim>\<open>/ 32.\<close> and \<^verbatim>\<open>/8\<close>.\<close>

fun f_div :: "(real \<Rightarrow> fval) \<Rightarrow> fval \<Rightarrow> real \<Rightarrow> fval" where
  "f_div rd (Fin x) c = rd (x / c)"
| "f_div rd PInf c = (if 0 < c then PInf else MInf)"
| "f_div rd MInf c = (if 0 < c then MInf else PInf)"
| "f_div rd NaN c = NaN"

text \<open>\<^verbatim>\<open>a < b\<close>: false when an operand is NaN.\<close>

fun f_lt :: "fval \<Rightarrow> fval \<Rightarrow> bool" where
  "f_lt (Fin x) (Fin y) = (x < y)"
| "f_lt NaN b = False"
| "f_lt a NaN = False"
| "f_lt PInf b = False"
| "f_lt a MInf = False"
| "f_lt MInf b = True"
| "f_lt a PInf = True"

text \<open>
  The conversion of a \<^verbatim>\<open>double\<close> to \<^verbatim>\<open>float\<close> (\<open>rd\<close> is the rounding to \<^verbatim>\<open>float\<close>), and a
  function of the mathematical library, which returns NaN where its argument is not finite.
\<close>

fun f_conv :: "(real \<Rightarrow> fval) \<Rightarrow> fval \<Rightarrow> fval" where
  "f_conv rd (Fin x) = rd x"
| "f_conv rd PInf = PInf"
| "f_conv rd MInf = MInf"
| "f_conv rd NaN = NaN"

fun f_libm :: "(real \<Rightarrow> real) \<Rightarrow> fval \<Rightarrow> fval" where
  "f_libm f (Fin x) = Fin (f x)"
| "f_libm f a = NaN"

text \<open>
  What belongs to the platform is a parameter of the model: the two roundings, the library
  functions \<^verbatim>\<open>cos\<close> and \<^verbatim>\<open>sin\<close>, and the value that the conversion to \<^verbatim>\<open>int\<close> gives for
  NaN, an infinity or a number outside the range of \<^verbatim>\<open>int\<close> (IEEE 754 leaves it
  unspecified; it is \<open>-2147483648\<close> on x86). Integers of the size that occur here (at
  most 255) convert to either type without rounding.
\<close>

record fpenv =
  to_float :: "real \<Rightarrow> fval"
  to_double :: "real \<Rightarrow> fval"
  c_cos :: "real \<Rightarrow> real"
  c_sin :: "real \<Rightarrow> real"
  int_indefinite :: int

text \<open>The conversion of a floating-point value to \<^verbatim>\<open>int\<close> drops the fraction.\<close>

definition to_int :: "fpenv \<Rightarrow> fval \<Rightarrow> int" where
  "to_int fp a =
     (case a of
        Fin x \<Rightarrow> if - (2 ^ 31) - 1 < x \<and> x < 2 ^ 31
                 then (if 0 \<le> x then \<lfloor>x\<rfloor> else \<lceil>x\<rceil>) else int_indefinite fp
      | _ \<Rightarrow> int_indefinite fp)"

text \<open>
  What the theorems on the palette ask of a rounding: it is monotone (\<open>f_le\<close> is \<^verbatim>\<open><=\<close>), it
  leaves a value that it has produced unchanged, and the integers and half-integers up to
  512 are among those values. Rounding to nearest in a binary format of 11 or more bits
  is of this kind.
\<close>

definition f_le :: "fval \<Rightarrow> fval \<Rightarrow> bool" where
  "f_le a b = (f_lt a b \<or> (a = b \<and> a \<noteq> NaN))"

definition rounding :: "(real \<Rightarrow> fval) \<Rightarrow> bool" where
  "rounding rd =
     ((\<forall>x y. x \<le> y \<longrightarrow> f_le (rd x) (rd y))
      \<and> (\<forall>x y. rd x = Fin y \<longrightarrow> rd y = Fin y)
      \<and> (\<forall>k::int. \<bar>k\<bar> \<le> 1024 \<longrightarrow> rd (of_int k / 2) = Fin (of_int k / 2)))"

text \<open>
  An environment for computing examples: no rounding error, but the overflow and the
  underflow of the binary32 and binary64 formats, where a number of at least
  \<open>huge\<close> becomes an infinity and one of at most \<open>tiny\<close> becomes zero.
\<close>

definition binary_round :: "real \<Rightarrow> real \<Rightarrow> real \<Rightarrow> fval" where
  "binary_round tiny huge x =
     (if huge \<le> x then PInf else if x \<le> - huge then MInf
      else if \<bar>x\<bar> \<le> tiny then Fin 0 else Fin x)"

definition exact_fp :: fpenv where
  "exact_fp =
     \<lparr>to_float = binary_round (1 / 2 ^ 150) (2 ^ 128 - 2 ^ 103),
      to_double = binary_round (1 / 2 ^ 1075) (2 ^ 1024 - 2 ^ 970),
      c_cos = cos, c_sin = sin, int_indefinite = - (2 ^ 31)\<rparr>"

subsection \<open>Colours\<close>

record c64_color =
  angle :: int
  luma :: int
  saturation :: int

record yuv_color =
  yuv_y :: fval
  yuv_u :: fval
  yuv_v :: fval

record rgb_color =
  rgb_r :: int
  rgb_g :: int
  rgb_b :: int

definition c64_colors :: "c64_color list" where
  "c64_colors =
    [\<lparr>angle = 0, luma = 0, saturation = 0\<rparr>,
     \<lparr>angle = 0, luma = 32, saturation = 0\<rparr>,
     \<lparr>angle = 5, luma = 10, saturation = 1\<rparr>,
     \<lparr>angle = 13, luma = 20, saturation = 1\<rparr>,
     \<lparr>angle = 2, luma = 12, saturation = 1\<rparr>,
     \<lparr>angle = 10, luma = 16, saturation = 1\<rparr>,
     \<lparr>angle = 0, luma = 8, saturation = 1\<rparr>,
     \<lparr>angle = 8, luma = 24, saturation = 1\<rparr>,
     \<lparr>angle = 6, luma = 12, saturation = 1\<rparr>,
     \<lparr>angle = 7, luma = 8, saturation = 1\<rparr>,
     \<lparr>angle = 5, luma = 16, saturation = 1\<rparr>,
     \<lparr>angle = 0, luma = 10, saturation = 0\<rparr>,
     \<lparr>angle = 0, luma = 15, saturation = 0\<rparr>,
     \<lparr>angle = 10, luma = 24, saturation = 1\<rparr>,
     \<lparr>angle = 0, luma = 15, saturation = 1\<rparr>,
     \<lparr>angle = 0, luma = 20, saturation = 0\<rparr>]"

text \<open>
  The constant \<^verbatim>\<open>M_PI\<close> of \<^verbatim>\<open>math.h\<close> and the macros \<^verbatim>\<open>USCALE\<close>, \<^verbatim>\<open>VSCALE\<close> and
  \<^verbatim>\<open>SATURATION\<close>: decimal constants of type \<^verbatim>\<open>double\<close>.
\<close>

definition M_PI :: "fpenv \<Rightarrow> fval" where
  "M_PI fp = to_double fp (314159265358979323846 / 100000000000000000000)"

definition USCALE :: "fpenv \<Rightarrow> fval" where
  "USCALE fp = to_double fp (1331 / 10000)"

definition VSCALE :: "fpenv \<Rightarrow> fval" where
  "VSCALE fp = to_double fp (1331 / 10000)"

definition SATURATION :: "fpenv \<Rightarrow> fval" where
  "SATURATION fp = to_double fp 1"

text \<open>
  \<^verbatim>\<open>c64_to_yuv\<close>; \<open>sat\<close> is the global \<^verbatim>\<open>float saturation\<close>. The products are taken from
  left to right, in \<^verbatim>\<open>float\<close> until the \<^verbatim>\<open>double\<close> result of \<^verbatim>\<open>cos\<close> or \<^verbatim>\<open>sin\<close> comes in.
\<close>

definition c64_to_yuv :: "fpenv \<Rightarrow> fval \<Rightarrow> c64_color \<Rightarrow> fval \<Rightarrow> fval \<Rightarrow> yuv_color" where
  "c64_to_yuv fp sat c64 uscale vscale =
     (let arg = f_div (to_double fp)
                  (f_mul (to_double fp) (Fin (of_int (angle c64))) (M_PI fp)) 8
      in
      \<lparr>yuv_y = f_conv (to_float fp) (f_div (to_double fp) (Fin (of_int (luma c64))) 32),
       yuv_u = f_conv (to_float fp)
                 (f_mul (to_double fp)
                    (f_mul (to_float fp)
                       (f_mul (to_float fp) (Fin (of_int (saturation c64))) sat) uscale)
                    (f_libm (c_cos fp) arg)),
       yuv_v = f_conv (to_float fp)
                 (f_mul (to_double fp)
                    (f_mul (to_float fp)
                       (f_mul (to_float fp) (Fin (of_int (saturation c64))) sat) vscale)
                    (f_libm (c_sin fp) arg))\<rparr>)"

text \<open>
  The three assignments at the head of \<^verbatim>\<open>yuv_to_rgb\<close>: \<^verbatim>\<open>double\<close> arithmetic on decimal
  constants, stored in a \<^verbatim>\<open>float\<close>.
\<close>

definition linear_r :: "fpenv \<Rightarrow> yuv_color \<Rightarrow> fval" where
  "linear_r fp yuv =
     f_conv (to_float fp)
       (f_add (to_double fp) (yuv_y yuv)
          (f_mul (to_double fp) (to_double fp (113983 / 100000)) (yuv_v yuv)))"

definition linear_g :: "fpenv \<Rightarrow> yuv_color \<Rightarrow> fval" where
  "linear_g fp yuv =
     f_conv (to_float fp)
       (f_add (to_double fp)
          (f_add (to_double fp) (yuv_y yuv)
             (f_mul (to_double fp) (f_neg (to_double fp (39465 / 100000))) (yuv_u yuv)))
          (f_mul (to_double fp) (f_neg (to_double fp (58060 / 100000))) (yuv_v yuv)))"

definition linear_b :: "fpenv \<Rightarrow> yuv_color \<Rightarrow> fval" where
  "linear_b fp yuv =
     f_conv (to_float fp)
       (f_add (to_double fp) (yuv_y yuv)
          (f_mul (to_double fp) (to_double fp (203211 / 100000)) (yuv_u yuv)))"

text \<open>The macro \<^verbatim>\<open>BOUND\<close>: two comparisons, both false for NaN.\<close>

definition BOUND :: "fval \<Rightarrow> fval" where
  "BOUND x = (if f_lt x (Fin 0) then Fin 0 else if f_lt (Fin 1) x then Fin 1 else x)"

text \<open>\<^verbatim>\<open>255*x + 0.5\<close> stored in an \<^verbatim>\<open>int\<close>: a \<^verbatim>\<open>float\<close> product, a \<^verbatim>\<open>double\<close> sum.\<close>

definition scale_255 :: "fpenv \<Rightarrow> fval \<Rightarrow> int" where
  "scale_255 fp x =
     to_int fp (f_add (to_double fp) (f_mul (to_float fp) (Fin 255) x) (Fin (1 / 2)))"

definition yuv_to_rgb :: "fpenv \<Rightarrow> yuv_color \<Rightarrow> rgb_color" where
  "yuv_to_rgb fp yuv =
     (let r = BOUND (linear_r fp yuv);
          g = BOUND (linear_g fp yuv);
          b = BOUND (linear_b fp yuv)
      in \<lparr>rgb_r = scale_255 fp r, rgb_g = scale_255 fp g, rgb_b = scale_255 fp b\<rparr>)"

definition c64_to_rgb :: "fpenv \<Rightarrow> fval \<Rightarrow> c64_color \<Rightarrow> fval \<Rightarrow> fval \<Rightarrow> rgb_color" where
  "c64_to_rgb fp sat c64 uscale vscale = yuv_to_rgb fp (c64_to_yuv fp sat c64 uscale vscale)"

text \<open>
  \<^verbatim>\<open>init_colors\<close> fills \<^verbatim>\<open>c64colors[16]\<close>; the \<^verbatim>\<open>double\<close> constants \<^verbatim>\<open>USCALE\<close> and \<^verbatim>\<open>VSCALE\<close>
  become \<^verbatim>\<open>float\<close> arguments.
\<close>

definition init_colors :: "fpenv \<Rightarrow> fval \<Rightarrow> rgb_color list" where
  "init_colors fp sat =
     map (\<lambda>i. c64_to_rgb fp sat (c64_colors ! i)
                 (f_conv (to_float fp) (USCALE fp)) (f_conv (to_float fp) (VSCALE fp)))
         [0..<16]"

subsection \<open>The decoded image\<close>

text \<open>
  \<^verbatim>\<open>char bitmap[25][40][8]\<close>, \<^verbatim>\<open>char video[25][40]\<close>, \<^verbatim>\<open>char color[25][40]\<close> and
  \<^verbatim>\<open>char bg\<close>, each array as the row-major sequence of bytes that \<^verbatim>\<open>fread\<close> fills.
\<close>

record image =
  bitmap :: "byte list"
  video :: "byte list"
  color :: "byte list"
  bg :: byte

text \<open>\<^verbatim>\<open>bitmap[cardy][cardx][y]\<close>, \<^verbatim>\<open>video[cardy][cardx]\<close>, \<^verbatim>\<open>color[cardy][cardx]\<close>.\<close>

definition bitmap_at :: "image \<Rightarrow> int \<Rightarrow> int \<Rightarrow> int \<Rightarrow> byte option" where
  "bitmap_at im cardy cardx y =
     (if 0 \<le> cardy \<and> cardy < 25 \<and> 0 \<le> cardx \<and> cardx < 40 \<and> 0 \<le> y \<and> y < 8
      then arr_get (bitmap im) ((cardy * 40 + cardx) * 8 + y) else None)"

definition video_at :: "image \<Rightarrow> int \<Rightarrow> int \<Rightarrow> byte option" where
  "video_at im cardy cardx =
     (if 0 \<le> cardy \<and> cardy < 25 \<and> 0 \<le> cardx \<and> cardx < 40
      then arr_get (video im) (cardy * 40 + cardx) else None)"

definition color_at :: "image \<Rightarrow> int \<Rightarrow> int \<Rightarrow> byte option" where
  "color_at im cardy cardx =
     (if 0 \<le> cardy \<and> cardy < 25 \<and> 0 \<le> cardx \<and> cardx < 40
      then arr_get (color im) (cardy * 40 + cardx) else None)"

subsection \<open>Pixel reconstruction\<close>

text \<open>
  \<^verbatim>\<open>struct rgb_color outimage[200][160]\<close> is a local array without initialiser: a pixel
  is \<open>None\<close> until something is stored in it.
\<close>

type_synonym raster = "rgb_color option list list"

definition outimage0 :: raster where
  "outimage0 = replicate 200 (replicate 160 None)"

text \<open>\<^verbatim>\<open>outimage[oy][ox] = c\<close>\<close>

definition set_pixel :: "raster \<Rightarrow> int \<Rightarrow> int \<Rightarrow> rgb_color \<Rightarrow> raster option" where
  "set_pixel img oy ox c = do {
     row \<leftarrow> arr_get img oy;
     row' \<leftarrow> arr_set row ox (Some c);
     arr_set img oy row'
   }"

text \<open>
  The four lookup indices of the program: \<^verbatim>\<open>(unsigned char)bg & 0x0f\<close>,
  \<^verbatim>\<open>(video[cardy][cardx]>>4) & 0x0f\<close>, \<^verbatim>\<open>video[cardy][cardx] & 0x0f\<close> (the same
  expression serves \<^verbatim>\<open>color[cardy][cardx]\<close>) and \<^verbatim>\<open>(c>>b) & 03\<close>.
\<close>

definition bg_index :: "byte \<Rightarrow> int" where
  "bg_index w = uint w AND 15"

definition hi_index :: "bool \<Rightarrow> byte \<Rightarrow> int" where
  "hi_index signed_char w = shr (char_val signed_char w) 4 AND 15"

definition lo_index :: "bool \<Rightarrow> byte \<Rightarrow> int" where
  "lo_index signed_char w = char_val signed_char w AND 15"

definition pixel_code :: "int \<Rightarrow> int \<Rightarrow> int" where
  "pixel_code c b = shr c b AND 3"

text \<open>
  \<^verbatim>\<open>for (b = 0; b < 8; b += 2) { outcolor = colors[(c>>b) & 03];
  outimage[outy][4*outx+(6-b)/2] = outcolor; }\<close>
\<close>

function bit_loop ::
  "rgb_color list \<Rightarrow> int \<Rightarrow> int \<Rightarrow> int \<Rightarrow> int \<Rightarrow> raster \<Rightarrow> raster option" where
  "bit_loop colors c outy outx b img =
     (if b < 8 then
        (case arr_get colors (pixel_code c b) of
           None \<Rightarrow> None
         | Some outcolor \<Rightarrow>
             (case set_pixel img outy (4 * outx + c_div (6 - b) 2) outcolor of
                None \<Rightarrow> None
              | Some img' \<Rightarrow> bit_loop colors c outy outx (b + 2) img'))
      else Some img)"
  by pat_completeness auto
termination
  by (relation "measure (\<lambda>(colors, c, outy, outx, b, img). nat (8 - b))") auto

declare bit_loop.simps [simp del]

text \<open>
  The body of the loop over \<^verbatim>\<open>y\<close>. The store \<^verbatim>\<open>outbitmap[outy][outx] = c\<close> goes to
  \<^verbatim>\<open>char outbitmap[200][40]\<close>, which nothing reads; the model keeps its bounds only.
\<close>

definition row_body ::
  "bool \<Rightarrow> image \<Rightarrow> rgb_color list \<Rightarrow> int \<Rightarrow> int \<Rightarrow> int \<Rightarrow> raster \<Rightarrow> raster option" where
  "row_body signed_char im colors cardy cardx y img =
     (let outx = cardx; outy = 8 * cardy + y in do {
        cb \<leftarrow> bitmap_at im cardy cardx y;
        let c = char_val signed_char cb;
        if 0 \<le> outy \<and> outy < 200 \<and> 0 \<le> outx \<and> outx < 40
        then bit_loop colors c outy outx 0 img
        else None
      })"

text \<open>The body of the loop over \<^verbatim>\<open>cardx\<close>; \<open>c0\<close> is \<^verbatim>\<open>colors[0]\<close>, set before the loops.\<close>

definition card_body ::
  "bool \<Rightarrow> rgb_color list \<Rightarrow> image \<Rightarrow> rgb_color \<Rightarrow> int \<Rightarrow> int \<Rightarrow> raster \<Rightarrow> raster option" where
  "card_body signed_char c64colors im c0 cardy cardx img = do {
     vb \<leftarrow> video_at im cardy cardx;
     c1 \<leftarrow> arr_get c64colors (hi_index signed_char vb);
     c2 \<leftarrow> arr_get c64colors (lo_index signed_char vb);
     kb \<leftarrow> color_at im cardy cardx;
     c3 \<leftarrow> arr_get c64colors (lo_index signed_char kb);
     for_loop 0 8 (row_body signed_char im [c0, c1, c2, c3] cardy cardx) img
   }"

definition reconstruct :: "bool \<Rightarrow> rgb_color list \<Rightarrow> image \<Rightarrow> raster option" where
  "reconstruct signed_char c64colors im = do {
     c0 \<leftarrow> arr_get c64colors (bg_index (bg im));
     for_loop 0 25
       (\<lambda>cardy. for_loop 0 40 (card_body signed_char c64colors im c0 cardy)) outimage0
   }"

subsection \<open>Reading the Koala file\<close>

text \<open>
  The input stream is the list of bytes that are still to come. \<^verbatim>\<open>fread(buf, sz, 1, f)\<close>
  takes bytes from the stream one after the other and stores them in \<open>buf\<close> in that
  order; it returns 1 (\<open>True\<close>) if it got all \<open>sz\<close> of them and 0 otherwise, in which
  case the bytes that were there have been stored and the stream is used up.
\<close>

definition fread :: "byte list \<Rightarrow> nat \<Rightarrow> byte list \<Rightarrow> byte list \<times> byte list \<times> bool" where
  "fread buf sz f =
     (if sz \<le> length f then (take sz f @ drop sz buf, drop sz f, True)
      else (f @ drop (length f) buf, [], False))"

text \<open>
  The \<^verbatim>\<open>memset\<close> calls and the chain of \<^verbatim>\<open>fread\<close> calls joined by \<^verbatim>\<open>&&\<close>: a read that
  returns 0 ends the chain. The result is the image, the rest of the stream and whether
  all five reads succeeded. \<^verbatim>\<open>loadaddr\<close> is not initialised and never used, so the
  buffer handed to the first read is of no consequence.
\<close>

definition read_koala :: "byte list \<Rightarrow> image \<times> byte list \<times> bool" where
  "read_koala f0 =
     (let bitmap0 = replicate 8000 (0x1b :: byte);
          video0 = replicate 1000 (0x25 :: byte);
          color0 = replicate 1000 (0x06 :: byte);
          bg0 = (0x00 :: byte);
          (loadaddr, f1, ok1) = fread [0, 0] 2 f0
      in if \<not> ok1
         then (\<lparr>bitmap = bitmap0, video = video0, color = color0, bg = bg0\<rparr>, f1, False)
         else
           let (bitmap1, f2, ok2) = fread bitmap0 8000 f1
           in if \<not> ok2
              then (\<lparr>bitmap = bitmap1, video = video0, color = color0, bg = bg0\<rparr>, f2, False)
              else
                let (video1, f3, ok3) = fread video0 1000 f2
                in if \<not> ok3
                   then (\<lparr>bitmap = bitmap1, video = video1, color = color0, bg = bg0\<rparr>,
                         f3, False)
                   else
                     let (color1, f4, ok4) = fread color0 1000 f3
                     in if \<not> ok4
                        then (\<lparr>bitmap = bitmap1, video = video1, color = color1, bg = bg0\<rparr>,
                              f4, False)
                        else
                          let (bg1, f5, ok5) = fread [bg0] 1 f4
                          in (\<lparr>bitmap = bitmap1, video = video1, color = color1,
                               bg = bg1 ! 0\<rparr>, f5, ok5))"

subsection \<open>Writing the pixmap\<close>

text \<open>\<^verbatim>\<open>printf("%d", n)\<close>\<close>

fun show_nat :: "nat \<Rightarrow> string" where
  "show_nat n =
     (if n < 10 then [char_of (48 + n)] else show_nat (n div 10) @ [char_of (48 + n mod 10)])"

declare show_nat.simps [simp del]

definition printf_d :: "int \<Rightarrow> string" where
  "printf_d n = (if n < 0 then CHR ''-'' # show_nat (nat (- n)) else show_nat (nat n))"

text \<open>\<^verbatim>\<open>printf("P6\n" "%d %d\n" "%d\n", 160, 200, 255)\<close>\<close>

definition ppm_header :: "byte list" where
  "ppm_header =
     map of_char (''P6'' @ [CHR 0x0A] @ printf_d 160 @ '' '' @ printf_d 200 @ [CHR 0x0A]
                  @ printf_d 255 @ [CHR 0x0A])"

text \<open>\<^verbatim>\<open>printf("%c%c%c", p.r, p.g, p.b)\<close>: each \<^verbatim>\<open>int\<close> is converted to \<^verbatim>\<open>unsigned char\<close>.\<close>

definition rgb_bytes :: "rgb_color \<Rightarrow> byte list" where
  "rgb_bytes p = [word_of_int (rgb_r p), word_of_int (rgb_g p), word_of_int (rgb_b p)]"

definition put_pixel :: "raster \<Rightarrow> int \<Rightarrow> int \<Rightarrow> byte list \<Rightarrow> byte list option" where
  "put_pixel img y x out = do {
     row \<leftarrow> arr_get img y;
     cell \<leftarrow> arr_get row x;
     p \<leftarrow> cell;
     Some (out @ rgb_bytes p)
   }"

definition write_ppm :: "raster \<Rightarrow> byte list option" where
  "write_ppm img = for_loop 0 200 (\<lambda>y. for_loop 0 160 (put_pixel img y)) ppm_header"

subsection \<open>The command line and \<^verbatim>\<open>main\<close>\<close>

text \<open>
  \<^verbatim>\<open>getopt\<close> hands the options to the loop of \<^verbatim>\<open>getargs\<close> one at a time: \<^verbatim>\<open>-h\<close>, \<^verbatim>\<open>-L\<close>,
  \<^verbatim>\<open>-s\<close> with its argument, or \<^verbatim>\<open>?\<close> for anything else. \<open>Opt_s d\<close> carries the \<^verbatim>\<open>double\<close>
  that \<^verbatim>\<open>atof(optarg)\<close> returns.
\<close>

datatype opt = Opt_h | Opt_L | Opt_s fval | Opt_unknown

text \<open>One constructor for each \<^verbatim>\<open>fprintf(stderr, ...)\<close> of the program.\<close>

datatype message =
    Usage
  | License
  | Saturation_negative
  | Too_many_filenames
  | Could_not_open string
  | File_too_short

text \<open>
  The \<^verbatim>\<open>while\<close> loop over the options; \<open>Inl\<close> is a call of \<^verbatim>\<open>exit\<close> with its status and
  what had been written to the error stream. \<^verbatim>\<open>saturation = atof(optarg)\<close> converts the
  \<^verbatim>\<open>double\<close> to \<^verbatim>\<open>float\<close>, and the test \<^verbatim>\<open>saturation < 0\<close> sees the \<^verbatim>\<open>float\<close>.
\<close>

fun getargs_loop :: "fpenv \<Rightarrow> fval \<Rightarrow> opt list \<Rightarrow> (int \<times> message list) + fval" where
  "getargs_loop fp sat [] = Inr sat"
| "getargs_loop fp sat (Opt_h # opts) = Inl (0, [Usage])"
| "getargs_loop fp sat (Opt_L # opts) = Inl (0, [License])"
| "getargs_loop fp sat (Opt_s d # opts) =
     (if f_lt (f_conv (to_float fp) d) (Fin 0) then Inl (1, [Saturation_negative])
      else getargs_loop fp (f_conv (to_float fp) d) opts)"
| "getargs_loop fp sat (Opt_unknown # opts) = Inl (1, [Usage])"

text \<open>
  \<open>args\<close> are the arguments that remain after the options, \<^verbatim>\<open>argv[optind]\<close> to
  \<^verbatim>\<open>argv[argc - 1]\<close>. The result is the saturation and \<^verbatim>\<open>koalafilename\<close>.
\<close>

definition getargs ::
  "fpenv \<Rightarrow> opt list \<Rightarrow> string list \<Rightarrow> (int \<times> message list) + (fval \<times> string option)" where
  "getargs fp opts args =
     (case getargs_loop fp (f_conv (to_float fp) (SATURATION fp)) opts of
        Inl e \<Rightarrow> Inl e
      | Inr sat \<Rightarrow>
          if 1 < length args then Inl (1, [Too_many_filenames, Usage])
          else if length args = 1 \<and> args ! 0 \<noteq> ''-'' then Inr (sat, Some (args ! 0))
          else Inr (sat, None))"

text \<open>
  What a run leaves behind: the exit status, the bytes on standard output, the messages
  on the error stream and the number of bytes taken from the input.
\<close>

record outcome =
  exit_status :: int
  stdout :: "byte list"
  stderr :: "message list"
  consumed :: nat

text \<open>\<^verbatim>\<open>main\<close> from \<^verbatim>\<open>init_colors()\<close> on, reading the stream \<open>koalafile\<close>.\<close>

definition convert :: "fpenv \<Rightarrow> bool \<Rightarrow> fval \<Rightarrow> byte list \<Rightarrow> outcome option" where
  "convert fp signed_char sat koalafile =
     (let c64colors = init_colors fp sat;
          (im, rest, complete) = read_koala koalafile;
          warning = (if complete then [] else [File_too_short])
      in do {
        outimage \<leftarrow> reconstruct signed_char c64colors im;
        out \<leftarrow> write_ppm outimage;
        Some \<lparr>exit_status = 0, stdout = out, stderr = warning,
              consumed = length koalafile - length rest\<rparr>
      })"

text \<open>
  \<open>files\<close> maps the names that \<^verbatim>\<open>fopen\<close> can open to their contents, \<open>stdin\<close> is the
  content of standard input.
\<close>

definition main ::
  "fpenv \<Rightarrow> bool \<Rightarrow> opt list \<Rightarrow> string list \<Rightarrow> (string \<Rightarrow> byte list option) \<Rightarrow> byte list
     \<Rightarrow> outcome option" where
  "main fp signed_char opts args files stdin =
     (case getargs fp opts args of
        Inl (st, msgs) \<Rightarrow> Some \<lparr>exit_status = st, stdout = [], stderr = msgs, consumed = 0\<rparr>
      | Inr (sat, koalafilename) \<Rightarrow>
          (case koalafilename of
             Some name \<Rightarrow>
               (case files name of
                  None \<Rightarrow> Some \<lparr>exit_status = - 1, stdout = [],
                                 stderr = [Could_not_open name], consumed = 0\<rparr>
                | Some koalafile \<Rightarrow> convert fp signed_char sat koalafile)
           | None \<Rightarrow> convert fp signed_char sat stdin))"

section \<open>Notions for the statements\<close>

text \<open>
  The definitions from here on are not code of the program. They name what the theorems
  talk about: the shape of the arrays, the closed form of a pixel, the bytes of a dump.
\<close>

text \<open>The sizes of the arrays that hold the decoded image.\<close>

definition wf_image :: "image \<Rightarrow> bool" where
  "wf_image im = (length (bitmap im) = 8000 \<and> length (video im) = 1000 \<and> length (color im) = 1000)"

text \<open>\<^verbatim>\<open>outimage\<close> has 200 rows of 160 cells; \<open>px\<close> reads one cell.\<close>

definition shape :: "raster \<Rightarrow> bool" where
  "shape img = (length img = 200 \<and> (\<forall>row \<in> set img. length row = 160))"

definition px :: "raster \<Rightarrow> int \<Rightarrow> int \<Rightarrow> rgb_color option" where
  "px img Y X = img ! nat Y ! nat X"

text \<open>
  \<open>frame R f img img'\<close>: going from \<open>img\<close> to \<open>img'\<close>, the cells in the region \<open>R\<close> have
  received the colours \<open>f\<close> and all other cells are as they were.
\<close>

definition frame :: "(int \<Rightarrow> int \<Rightarrow> bool) \<Rightarrow> (int \<Rightarrow> int \<Rightarrow> rgb_color) \<Rightarrow> raster \<Rightarrow> raster \<Rightarrow> bool" where
  "frame R f img img' =
     (shape img' \<and> (\<forall>Y X. 0 \<le> Y \<longrightarrow> 0 \<le> X \<longrightarrow>
        px img' Y X = (if R Y X then Some (f Y X) else px img Y X)))"

text \<open>
  The array \<^verbatim>\<open>colors[4]\<close> while the card \<open>(cardy, cardx)\<close> is worked on, the byte
  \<^verbatim>\<open>bitmap[cardy][cardx][y]\<close>, and the colour that the loops store at row \<open>Y\<close> and column
  \<open>X\<close> of \<^verbatim>\<open>outimage\<close>, all written with the expressions of the program.
\<close>

definition card_colors :: "bool \<Rightarrow> rgb_color list \<Rightarrow> image \<Rightarrow> int \<Rightarrow> int \<Rightarrow> rgb_color list" where
  "card_colors signed_char c64colors im cardy cardx =
     [c64colors ! nat (bg_index (bg im)),
      c64colors ! nat (hi_index signed_char (video im ! nat (cardy * 40 + cardx))),
      c64colors ! nat (lo_index signed_char (video im ! nat (cardy * 40 + cardx))),
      c64colors ! nat (lo_index signed_char (color im ! nat (cardy * 40 + cardx)))]"

definition bitmap_byte :: "image \<Rightarrow> int \<Rightarrow> int \<Rightarrow> int \<Rightarrow> byte" where
  "bitmap_byte im cardy cardx y = bitmap im ! nat ((cardy * 40 + cardx) * 8 + y)"

definition pixel_of :: "bool \<Rightarrow> rgb_color list \<Rightarrow> image \<Rightarrow> int \<Rightarrow> int \<Rightarrow> rgb_color" where
  "pixel_of signed_char c64colors im Y X =
     card_colors signed_char c64colors im (Y div 8) (X div 4)
       ! nat (pixel_code (char_val signed_char (bitmap_byte im (Y div 8) (X div 4) (Y mod 8)))
                (6 - 2 * (X mod 4)))"

text \<open>
  The table of a card in the words of the specification: the palette entries selected by
  the low nibble of the background byte, the high and the low nibble of the video-matrix
  byte and the low nibble of the colour-RAM byte, the bytes taken as unsigned.
\<close>

definition local_table :: "rgb_color list \<Rightarrow> byte \<Rightarrow> byte \<Rightarrow> byte \<Rightarrow> rgb_color list" where
  "local_table palette bgb vb cb =
     [palette ! unat (bgb AND 0x0F), palette ! unat (drop_bit 4 vb AND 0x0F),
      palette ! unat (vb AND 0x0F), palette ! unat (cb AND 0x0F)]"

text \<open>The raster with the colour \<open>p Y X\<close> in every cell, and its bytes in file order.\<close>

definition raster_of :: "(int \<Rightarrow> int \<Rightarrow> rgb_color) \<Rightarrow> raster" where
  "raster_of p = map (\<lambda>Y. map (\<lambda>X. Some (p Y X)) [0..159]) [0..199]"

definition payload :: "(int \<Rightarrow> int \<Rightarrow> rgb_color) \<Rightarrow> byte list" where
  "payload p = concat (map (\<lambda>Y. concat (map (\<lambda>X. rgb_bytes (p Y X)) [0..159])) [0..199])"

text \<open>
  The bytes of a raster: rows from top to bottom, the cells of a row from left to right,
  each cell as red, green, blue.
\<close>

definition dump :: "raster \<Rightarrow> byte list" where
  "dump img = concat (map (\<lambda>row. concat (map (\<lambda>cell. rgb_bytes (the cell)) row)) img)"

text \<open>
  \<open>fill n d xs\<close> is a buffer of \<open>n\<close> bytes \<open>d\<close> after the bytes \<open>xs\<close> have been stored at its
  start. \<open>koala_image f\<close> is the image that the stream \<open>f\<close> decodes to, the bitmap taken
  from offset 2, the video matrix from 8002, the colour RAM from 9002 and the background
  from 10002.
\<close>

definition fill :: "nat \<Rightarrow> byte \<Rightarrow> byte list \<Rightarrow> byte list" where
  "fill n d xs = take n xs @ replicate (n - length xs) d"

definition koala_image :: "byte list \<Rightarrow> image" where
  "koala_image f =
     \<lparr>bitmap = fill 8000 0x1b (drop 2 f), video = fill 1000 0x25 (drop 8002 f),
      color = fill 1000 0x06 (drop 9002 f),
      bg = (if 10003 \<le> length f then f ! 10002 else 0)\<rparr>"

text \<open>The stream that \<^verbatim>\<open>main\<close> reads: the named file if there is a name, else \<open>stdin\<close>.\<close>

definition koala_stream :: "(string \<Rightarrow> byte list option) \<Rightarrow> byte list \<Rightarrow> string option \<Rightarrow> byte list option" where
  "koala_stream files stdin koalafilename =
     (case koalafilename of None \<Rightarrow> Some stdin | Some name \<Rightarrow> files name)"

text \<open>An image whose bitmap bytes all are \<open>0xE4\<close>, binary 11 10 01 00.\<close>

definition im_E4 :: image where
  "im_E4 = \<lparr>bitmap = replicate 8000 0xE4, video = replicate 1000 0x25,
            color = replicate 1000 0x06, bg = 0x00\<rparr>"

section \<open>Loops and lookups\<close>

text \<open>The invariant rule for \<open>for_loop\<close>: the loop cannot fail if its body cannot.\<close>

lemma for_loop_rule:
  assumes "lo \<le> n" "I lo s"
    and step: "\<And>i s. lo \<le> i \<Longrightarrow> i < n \<Longrightarrow> I i s \<Longrightarrow> \<exists>s'. body i s = Some s' \<and> I (i + 1) s'"
  shows "\<exists>s'. for_loop lo n body s = Some s' \<and> I n s'"
  using assms
proof (induction lo n body s rule: for_loop.induct)
  case (1 i n body s)
  show ?case
  proof (cases "i < n")
    case True
    from "1.prems"(3)[of i s] True "1.prems"(2)
    obtain s1 where s1: "body i s = Some s1" "I (i + 1) s1" by auto
    have "\<exists>s'. for_loop (i + 1) n body s1 = Some s' \<and> I n s'"
    proof (rule "1.IH"[OF True s1(1)])
      show "i + 1 \<le> n" using True by simp
      show "I (i + 1) s1" by (rule s1(2))
      fix j t assume "i + 1 \<le> j" "j < n" "I j t"
      then show "\<exists>s'. body j t = Some s' \<and> I (j + 1) s'"
        using "1.prems"(3)[of j t] by simp
    qed
    then show ?thesis using True s1 by (subst for_loop.simps) simp
  next
    case False
    with "1.prems" have "i = n" by simp
    then show ?thesis using "1.prems"(2) by (subst for_loop.simps) simp
  qed
qed

text \<open>Masking keeps every lookup index inside its array.\<close>

lemma bg_index_range: "0 \<le> bg_index w \<and> bg_index w \<le> 15"
  by (simp add: bg_index_def)

lemma hi_index_range: "0 \<le> hi_index sc w \<and> hi_index sc w \<le> 15"
  by (simp add: hi_index_def)

lemma lo_index_range: "0 \<le> lo_index sc w \<and> lo_index sc w \<le> 15"
  by (simp add: lo_index_def)

lemma pixel_code_range: "0 \<le> pixel_code c b \<and> pixel_code c b \<le> 3"
  by (simp add: pixel_code_def)

text \<open>
  The indices are the nibbles and the bit pairs of the byte, whether \<^verbatim>\<open>char\<close> is signed or
  not: the shifts stay below bit 8, where the sign extension begins.
\<close>

lemma int_and_15: "(k::int) AND 15 = take_bit 4 k"
  using take_bit_eq_mask[of 4 k] by (simp add: mask_eq_exp_minus_1)

lemma int_and_3: "(k::int) AND 3 = take_bit 2 k"
  using take_bit_eq_mask[of 2 k] by (simp add: mask_eq_exp_minus_1)

lemma byte_and_15: "(w::byte) AND 15 = take_bit 4 w"
  using take_bit_eq_mask[of 4 w] by (simp add: mask_eq_exp_minus_1)

lemma byte_and_3: "(w::byte) AND 3 = take_bit 2 w"
  using take_bit_eq_mask[of 2 w] by (simp add: mask_eq_exp_minus_1)

lemma char_val_bits: "n < 8 \<Longrightarrow> bit (char_val sc (w::byte)) n = bit w n"
  by (simp add: char_val_def bit_sint_iff bit_uint_iff)

lemma hi_index_nibble: "hi_index sc (w::byte) = uint (drop_bit 4 w)"
  unfolding hi_index_def shr_def int_and_15
proof (rule bit_eqI)
  fix n
  show "bit (take_bit 4 (drop_bit (nat 4) (char_val sc w))) n = bit (uint (drop_bit 4 w)) n"
    by (cases "n < 4") (auto simp add: bit_simps char_val_bits dest: bit_imp_le_length)
qed

lemma lo_index_nibble: "lo_index sc (w::byte) = uint (w AND 15)"
  unfolding lo_index_def int_and_15 byte_and_15
proof (rule bit_eqI)
  fix n
  show "bit (take_bit 4 (char_val sc w)) n = bit (uint (take_bit 4 w)) n"
    by (cases "n < 4") (auto simp add: bit_simps char_val_bits)
qed

lemma pixel_code_bits:
  assumes "0 \<le> b" "b \<le> 6"
  shows "pixel_code (char_val sc w) b = uint (drop_bit (nat b) w AND 3)"
  unfolding pixel_code_def shr_def int_and_3 byte_and_3
proof (rule bit_eqI)
  fix n
  show "bit (take_bit 2 (drop_bit (nat b) (char_val sc w))) n
        = bit (uint (take_bit 2 (drop_bit (nat b) w))) n"
    using assms by (cases "n < 2") (auto simp add: bit_simps char_val_bits)
qed

lemma bg_index_nibble: "bg_index w = uint (w AND 15)"
  by (simp add: bg_index_def uint_and)

lemma hi_nibble_mask: "drop_bit 4 (w::byte) AND 15 = drop_bit 4 w"
  unfolding byte_and_15 by (rule bit_eqI) (auto simp add: bit_simps dest: bit_imp_le_length)

lemma card_colors_table:
  "card_colors sc pal im cardy cardx
   = local_table pal (bg im) (video im ! nat (cardy * 40 + cardx))
       (color im ! nat (cardy * 40 + cardx))"
  by (simp add: card_colors_def local_table_def bg_index_nibble hi_index_nibble
      lo_index_nibble hi_nibble_mask)

lemma local_table_mask: "local_table pal b v (c AND 15) = local_table pal b v c"
  by (simp add: local_table_def)

section \<open>The loops of the pixel reconstruction\<close>

lemma shape_update:
  "shape img \<Longrightarrow> length row = 160 \<Longrightarrow> shape (img[i := row])"
  unfolding shape_def by (auto dest: set_update_subset_insert [THEN subsetD])

lemma set_pixel_ok:
  assumes "shape img" "0 \<le> oy" "oy < 200" "0 \<le> ox" "ox < 160"
  shows "\<exists>img'. set_pixel img oy ox c = Some img'
           \<and> frame (\<lambda>Y X. Y = oy \<and> X = ox) (\<lambda>Y X. c) img img'"
proof -
  let ?row = "img ! nat oy"
  have len: "length img = 200" using assms(1) by (simp add: shape_def)
  have "?row \<in> set img" using len assms(2,3) by simp
  then have rlen: "length ?row = 160" using assms(1) by (simp add: shape_def)
  let ?img' = "img[nat oy := ?row[nat ox := Some c]]"
  have eq: "set_pixel img oy ox c = Some ?img'"
    using assms len rlen by (simp add: set_pixel_def arr_get_def arr_set_def)
  have sh: "shape ?img'" using assms(1) rlen by (simp add: shape_update)
  have "px ?img' Y X = (if Y = oy \<and> X = ox then Some c else px img Y X)"
    if "0 \<le> Y" "0 \<le> X" for Y X
  proof (cases "Y = oy")
    case True
    then show ?thesis using that assms len rlen
      by (cases "X = ox") (simp_all add: px_def nat_eq_iff)
  next
    case False
    then have "nat Y \<noteq> nat oy" using that assms by simp
    then show ?thesis using False by (simp add: px_def)
  qed
  then show ?thesis using eq sh by (simp add: frame_def)
qed

lemma frame_trans:
  assumes "frame R1 f a b" "frame R2 f b c"
  shows "frame (\<lambda>Y X. R1 Y X \<or> R2 Y X) f a c"
  using assms unfolding frame_def by auto

lemma frame_cong:
  assumes "frame R f a b"
    and "\<And>Y X. 0 \<le> Y \<Longrightarrow> 0 \<le> X \<Longrightarrow> R' Y X = R Y X"
    and "\<And>Y X. 0 \<le> Y \<Longrightarrow> 0 \<le> X \<Longrightarrow> R Y X \<Longrightarrow> f' Y X = f Y X"
  shows "frame R' f' a b"
  using assms unfolding frame_def by auto

lemma frame_refl: "shape a \<Longrightarrow> frame (\<lambda>Y X. False) f a a"
  by (simp add: frame_def)

lemma frame_shape: "frame R f a b \<Longrightarrow> shape b"
  by (simp add: frame_def)

text \<open>The loop over \<^verbatim>\<open>b\<close> stores the four cells of one row of a card.\<close>

lemma bit_loop_unfold:
  "bit_loop colors c oy ox 0 img = do {
     c0 \<leftarrow> arr_get colors (pixel_code c 0);
     img1 \<leftarrow> set_pixel img oy (4 * ox + 3) c0;
     c1 \<leftarrow> arr_get colors (pixel_code c 2);
     img2 \<leftarrow> set_pixel img1 oy (4 * ox + 2) c1;
     c2 \<leftarrow> arr_get colors (pixel_code c 4);
     img3 \<leftarrow> set_pixel img2 oy (4 * ox + 1) c2;
     c3 \<leftarrow> arr_get colors (pixel_code c 6);
     set_pixel img3 oy (4 * ox + 0) c3
   }"
  by (simp add: bit_loop.simps[of _ _ _ _ 0] bit_loop.simps[of _ _ _ _ 2]
      bit_loop.simps[of _ _ _ _ 4] bit_loop.simps[of _ _ _ _ 6] bit_loop.simps[of _ _ _ _ 8]
      c_div_def split: option.splits)

lemma colors_get:
  "length colors = 4 \<Longrightarrow> arr_get colors (pixel_code c b) = Some (colors ! nat (pixel_code c b))"
  using pixel_code_range[of c b] by (simp add: arr_get_def)

lemma bit_loop_frame:
  assumes sh: "shape img" and oy: "0 \<le> oy" "oy < 200" and ox: "0 \<le> ox" "ox < 40"
    and len: "length colors = 4"
  shows "\<exists>img'. bit_loop colors c oy ox 0 img = Some img'
           \<and> frame (\<lambda>Y X. Y = oy \<and> X div 4 = ox)
                   (\<lambda>Y X. colors ! nat (pixel_code c (6 - 2 * (X mod 4)))) img img'"
proof -
  let ?f = "\<lambda>(Y::int) X. colors ! nat (pixel_code c (6 - 2 * (X mod 4)))"
  obtain img1 where 1: "set_pixel img oy (4 * ox + 3) (colors ! nat (pixel_code c 0)) = Some img1"
      "frame (\<lambda>Y X. Y = oy \<and> X = 4 * ox + 3) (\<lambda>Y X. colors ! nat (pixel_code c 0)) img img1"
    using set_pixel_ok[OF sh oy, of "4 * ox + 3"] ox by auto
  obtain img2 where 2: "set_pixel img1 oy (4 * ox + 2) (colors ! nat (pixel_code c 2)) = Some img2"
      "frame (\<lambda>Y X. Y = oy \<and> X = 4 * ox + 2) (\<lambda>Y X. colors ! nat (pixel_code c 2)) img1 img2"
    using set_pixel_ok[OF frame_shape[OF 1(2)] oy, of "4 * ox + 2"] ox by auto
  obtain img3 where 3: "set_pixel img2 oy (4 * ox + 1) (colors ! nat (pixel_code c 4)) = Some img3"
      "frame (\<lambda>Y X. Y = oy \<and> X = 4 * ox + 1) (\<lambda>Y X. colors ! nat (pixel_code c 4)) img2 img3"
    using set_pixel_ok[OF frame_shape[OF 2(2)] oy, of "4 * ox + 1"] ox by auto
  obtain img4 where 4: "set_pixel img3 oy (4 * ox + 0) (colors ! nat (pixel_code c 6)) = Some img4"
      "frame (\<lambda>Y X. Y = oy \<and> X = 4 * ox + 0) (\<lambda>Y X. colors ! nat (pixel_code c 6)) img3 img4"
    using set_pixel_ok[OF frame_shape[OF 3(2)] oy, of "4 * ox + 0"] ox by auto
  have f1: "frame (\<lambda>Y X. Y = oy \<and> X = 4 * ox + 3) ?f img img1"
    by (rule frame_cong[OF 1(2)]) auto
  have f2: "frame (\<lambda>Y X. Y = oy \<and> X = 4 * ox + 2) ?f img1 img2"
    by (rule frame_cong[OF 2(2)]) auto
  have f3: "frame (\<lambda>Y X. Y = oy \<and> X = 4 * ox + 1) ?f img2 img3"
    by (rule frame_cong[OF 3(2)]) auto
  have f4: "frame (\<lambda>Y X. Y = oy \<and> X = 4 * ox + 0) ?f img3 img4"
    by (rule frame_cong[OF 4(2)]) auto
  have "frame (\<lambda>Y X. Y = oy \<and> X div 4 = ox) ?f img img4"
  proof (rule frame_cong[OF frame_trans[OF frame_trans[OF frame_trans[OF f1 f2] f3] f4]])
    fix Y X :: int
    show "(Y = oy \<and> X div 4 = ox) =
          (((Y = oy \<and> X = 4 * ox + 3 \<or> Y = oy \<and> X = 4 * ox + 2) \<or>
            Y = oy \<and> X = 4 * ox + 1) \<or> Y = oy \<and> X = 4 * ox + 0)"
      by linarith
  qed simp
  moreover have "bit_loop colors c oy ox 0 img = Some img4"
    using 1(1) 2(1) 3(1) 4(1) by (simp add: bit_loop_unfold colors_get[OF len])
  ultimately show ?thesis by blast
qed

lemma bitmap_at_ok:
  assumes "wf_image im" "0 \<le> cardy" "cardy < 25" "0 \<le> cardx" "cardx < 40" "0 \<le> y" "y < 8"
  shows "bitmap_at im cardy cardx y = Some (bitmap_byte im cardy cardx y)"
  using assms by (simp add: bitmap_at_def arr_get_def wf_image_def bitmap_byte_def)

lemma video_at_ok:
  assumes "wf_image im" "0 \<le> cardy" "cardy < 25" "0 \<le> cardx" "cardx < 40"
  shows "video_at im cardy cardx = Some (video im ! nat (cardy * 40 + cardx))"
  using assms by (simp add: video_at_def arr_get_def wf_image_def)

lemma color_at_ok:
  assumes "wf_image im" "0 \<le> cardy" "cardy < 25" "0 \<le> cardx" "cardx < 40"
  shows "color_at im cardy cardx = Some (color im ! nat (cardy * 40 + cardx))"
  using assms by (simp add: color_at_def arr_get_def wf_image_def)

lemma pal_get:
  "length pal = 16 \<Longrightarrow> 0 \<le> i \<Longrightarrow> i \<le> 15 \<Longrightarrow> arr_get pal i = Some (pal ! nat i)"
  by (simp add: arr_get_def)

lemma row_body_frame:
  assumes wf: "wf_image im" and sh: "shape img"
    and cy: "0 \<le> cardy" "cardy < 25" and cx: "0 \<le> cardx" "cardx < 40"
    and y: "0 \<le> y" "y < 8" and len: "length colors = 4"
  shows "\<exists>img'. row_body sc im colors cardy cardx y img = Some img'
           \<and> frame (\<lambda>Y X. Y = 8 * cardy + y \<and> X div 4 = cardx)
                   (\<lambda>Y X. colors ! nat (pixel_code (char_val sc (bitmap_byte im cardy cardx y))
                                          (6 - 2 * (X mod 4)))) img img'"
proof -
  have oy: "0 \<le> 8 * cardy + y" "8 * cardy + y < 200" using cy y by auto
  show ?thesis
    using bit_loop_frame[OF sh oy cx len, of "char_val sc (bitmap_byte im cardy cardx y)"]
      oy cx
    by (simp add: row_body_def bitmap_at_ok[OF wf cy cx y])
qed

text \<open>The loop over \<^verbatim>\<open>y\<close> stores the eight rows of a card.\<close>

lemma card_body_frame:
  assumes wf: "wf_image im" and sh: "shape img"
    and cy: "0 \<le> cardy" "cardy < 25" and cx: "0 \<le> cardx" "cardx < 40"
    and len: "length pal = 16"
  shows "\<exists>img'. card_body sc pal im (pal ! nat (bg_index (bg im))) cardy cardx img = Some img'
           \<and> frame (\<lambda>Y X. Y div 8 = cardy \<and> X div 4 = cardx) (pixel_of sc pal im) img img'"
proof -
  let ?colors = "card_colors sc pal im cardy cardx"
  let ?I = "\<lambda>j s. frame (\<lambda>Y X. 8 * cardy \<le> Y \<and> Y < 8 * cardy + j \<and> X div 4 = cardx)
                       (pixel_of sc pal im) img s"
  have len4: "length ?colors = 4" by (simp add: card_colors_def)
  have body: "card_body sc pal im (pal ! nat (bg_index (bg im))) cardy cardx img
              = for_loop 0 8 (row_body sc im ?colors cardy cardx) img"
    using hi_index_range lo_index_range
    by (simp add: card_body_def video_at_ok[OF wf cy cx] color_at_ok[OF wf cy cx]
        pal_get[OF len] card_colors_def)
  have "\<exists>s'. for_loop 0 8 (row_body sc im ?colors cardy cardx) img = Some s' \<and> ?I 8 s'"
  proof (rule for_loop_rule[where I = ?I])
    show "(0::int) \<le> 8" by simp
    show "?I 0 img" by (rule frame_cong[OF frame_refl[OF sh]]) auto
  next
    fix y s assume y: "0 \<le> y" "y < 8" and I: "?I y s"
    from row_body_frame[OF wf frame_shape[OF I] cy cx y len4, of sc]
    obtain s' where s': "row_body sc im ?colors cardy cardx y s = Some s'"
      and fr: "frame (\<lambda>Y X. Y = 8 * cardy + y \<and> X div 4 = cardx)
                 (\<lambda>Y X. ?colors ! nat (pixel_code (char_val sc (bitmap_byte im cardy cardx y))
                                          (6 - 2 * (X mod 4)))) s s'"
      by blast
    have fr': "frame (\<lambda>Y X. Y = 8 * cardy + y \<and> X div 4 = cardx) (pixel_of sc pal im) s s'"
    proof (rule frame_cong[OF fr])
      fix Y X :: int assume "Y = 8 * cardy + y \<and> X div 4 = cardx"
      moreover from this y have "Y div 8 = cardy" "Y mod 8 = y" by auto
      ultimately show "pixel_of sc pal im Y X
          = ?colors ! nat (pixel_code (char_val sc (bitmap_byte im cardy cardx y)) (6 - 2 * (X mod 4)))"
        by (simp add: pixel_of_def)
    qed simp
    have "?I (y + 1) s'"
      by (rule frame_cong[OF frame_trans[OF I fr']]) (use y in auto)
    with s' show "\<exists>s'. row_body sc im ?colors cardy cardx y s = Some s' \<and> ?I (y + 1) s'"
      by blast
  qed
  then obtain s' where s': "for_loop 0 8 (row_body sc im ?colors cardy cardx) img = Some s'"
    and fin: "?I 8 s'" by blast
  have "frame (\<lambda>Y X. Y div 8 = cardy \<and> X div 4 = cardx) (pixel_of sc pal im) img s'"
  proof (rule frame_cong[OF fin])
    fix Y X :: int
    show "(Y div 8 = cardy \<and> X div 4 = cardx)
          = (8 * cardy \<le> Y \<and> Y < 8 * cardy + 8 \<and> X div 4 = cardx)"
      by linarith
  qed simp
  with s' body show ?thesis by simp
qed

text \<open>The loops over \<^verbatim>\<open>cardx\<close> and \<^verbatim>\<open>cardy\<close> store all cards.\<close>

lemma shape_outimage0: "shape outimage0"
  by (simp add: shape_def outimage0_def)

lemma card_row_frame:
  assumes wf: "wf_image im" and sh: "shape img"
    and cy: "0 \<le> cardy" "cardy < 25" and len: "length pal = 16"
  shows "\<exists>img'. for_loop 0 40 (card_body sc pal im (pal ! nat (bg_index (bg im))) cardy) img = Some img'
           \<and> frame (\<lambda>Y X. Y div 8 = cardy \<and> X div 4 < 40) (pixel_of sc pal im) img img'"
proof -
  let ?I = "\<lambda>j s. frame (\<lambda>Y X. Y div 8 = cardy \<and> X div 4 < j) (pixel_of sc pal im) img s"
  show ?thesis
  proof (rule for_loop_rule[where I = ?I])
    show "(0::int) \<le> 40" by simp
    show "?I 0 img"
    proof (rule frame_cong[OF frame_refl[OF sh]])
      fix Y X :: int assume "0 \<le> X"
      then have "0 \<le> X div 4" by simp
      then show "(Y div 8 = cardy \<and> X div 4 < 0) = False" by simp
    qed simp
  next
    fix cardx s assume cx: "0 \<le> cardx" "cardx < 40" and I: "?I cardx s"
    from card_body_frame[OF wf frame_shape[OF I] cy cx len, of sc]
    obtain s' where s': "card_body sc pal im (pal ! nat (bg_index (bg im))) cardy cardx s = Some s'"
      and fr: "frame (\<lambda>Y X. Y div 8 = cardy \<and> X div 4 = cardx) (pixel_of sc pal im) s s'"
      by blast
    have "?I (cardx + 1) s'"
    proof (rule frame_cong[OF frame_trans[OF I fr]])
      fix Y X :: int
      show "(Y div 8 = cardy \<and> X div 4 < cardx + 1)
            = ((Y div 8 = cardy \<and> X div 4 < cardx) \<or> (Y div 8 = cardy \<and> X div 4 = cardx))"
        by linarith
    qed simp
    with s' show "\<exists>s'. card_body sc pal im (pal ! nat (bg_index (bg im))) cardy cardx s = Some s'
                       \<and> ?I (cardx + 1) s'"
      by blast
  qed
qed

lemma all_cards_frame:
  assumes wf: "wf_image im" and sh: "shape img" and len: "length pal = 16"
  shows "\<exists>img'. for_loop 0 25
             (\<lambda>cardy. for_loop 0 40 (card_body sc pal im (pal ! nat (bg_index (bg im))) cardy)) img
           = Some img'
           \<and> frame (\<lambda>Y X. Y div 8 < 25 \<and> X div 4 < 40) (pixel_of sc pal im) img img'"
proof -
  let ?I = "\<lambda>j s. frame (\<lambda>Y X. Y div 8 < j \<and> X div 4 < 40) (pixel_of sc pal im) img s"
  show ?thesis
  proof (rule for_loop_rule[where I = ?I])
    show "(0::int) \<le> 25" by simp
    show "?I 0 img"
    proof (rule frame_cong[OF frame_refl[OF sh]])
      fix Y X :: int assume "0 \<le> Y"
      then have "0 \<le> Y div 8" by simp
      then show "(Y div 8 < 0 \<and> X div 4 < 40) = False" by simp
    qed simp
  next
    fix cardy s assume cy: "0 \<le> cardy" "cardy < 25" and I: "?I cardy s"
    from card_row_frame[OF wf frame_shape[OF I] cy len, of sc]
    obtain s' where s': "for_loop 0 40 (card_body sc pal im (pal ! nat (bg_index (bg im))) cardy) s = Some s'"
      and fr: "frame (\<lambda>Y X. Y div 8 = cardy \<and> X div 4 < 40) (pixel_of sc pal im) s s'"
      by blast
    have "?I (cardy + 1) s'"
    proof (rule frame_cong[OF frame_trans[OF I fr]])
      fix Y X :: int
      show "(Y div 8 < cardy + 1 \<and> X div 4 < 40)
            = ((Y div 8 < cardy \<and> X div 4 < 40) \<or> (Y div 8 = cardy \<and> X div 4 < 40))"
        by linarith
    qed simp
    with s' show "\<exists>s'. for_loop 0 40 (card_body sc pal im (pal ! nat (bg_index (bg im))) cardy) s = Some s'
                       \<and> ?I (cardy + 1) s'"
      by blast
  qed
qed

lemma reconstruct_ok:
  assumes wf: "wf_image im" and len: "length pal = 16"
  shows "\<exists>img. reconstruct sc pal im = Some img \<and> shape img
           \<and> (\<forall>Y X. 0 \<le> Y \<longrightarrow> Y < 200 \<longrightarrow> 0 \<le> X \<longrightarrow> X < 160
                 \<longrightarrow> px img Y X = Some (pixel_of sc pal im Y X))"
proof -
  from all_cards_frame[OF wf shape_outimage0 len, of sc]
  obtain img where run: "for_loop 0 25
             (\<lambda>cardy. for_loop 0 40 (card_body sc pal im (pal ! nat (bg_index (bg im))) cardy)) outimage0
           = Some img"
    and fr: "frame (\<lambda>Y X. Y div 8 < 25 \<and> X div 4 < 40) (pixel_of sc pal im) outimage0 img"
    by blast
  have "reconstruct sc pal im = Some img"
    using run bg_index_range[of "bg im"] by (simp add: reconstruct_def pal_get[OF len])
  moreover have "px img Y X = Some (pixel_of sc pal im Y X)"
    if "0 \<le> Y" "Y < 200" "0 \<le> X" "X < 160" for Y X
  proof -
    have "Y div 8 < 25" "X div 4 < 40" using that by auto
    then show ?thesis using fr that by (simp add: frame_def)
  qed
  ultimately show ?thesis using frame_shape[OF fr] by blast
qed

text \<open>The result in closed form.\<close>

lemma upto_nth: "0 \<le> i \<Longrightarrow> i \<le> n \<Longrightarrow> [0..n] ! nat i = i"
  by simp

lemma raster_of_row:
  "0 \<le> Y \<Longrightarrow> Y < 200 \<Longrightarrow> raster_of p ! nat Y = map (\<lambda>X. Some (p Y X)) [0..159]"
  by (simp add: raster_of_def upto_nth)

lemma raster_of_px:
  "0 \<le> Y \<Longrightarrow> Y < 200 \<Longrightarrow> 0 \<le> X \<Longrightarrow> X < 160 \<Longrightarrow> raster_of p ! nat Y ! nat X = Some (p Y X)"
  by (simp add: raster_of_row upto_nth)

lemma shape_raster_of: "shape (raster_of p)"
  by (auto simp add: shape_def raster_of_def)

lemma raster_eq:
  assumes sh: "shape img"
    and px: "\<And>Y X. 0 \<le> Y \<Longrightarrow> Y < 200 \<Longrightarrow> 0 \<le> X \<Longrightarrow> X < 160 \<Longrightarrow> px img Y X = Some (p Y X)"
  shows "img = raster_of p"
proof (rule nth_equalityI)
  show "length img = length (raster_of p)" using sh by (simp add: shape_def raster_of_def)
next
  fix i assume i: "i < length img"
  then have i200: "i < 200" using sh by (simp add: shape_def)
  have row: "raster_of p ! i = map (\<lambda>X. Some (p (int i) X)) [0..159]"
    using raster_of_row[of "int i" p] i200 by simp
  have len: "length (img ! i) = 160" using sh i by (simp add: shape_def)
  show "img ! i = raster_of p ! i"
  proof (rule nth_equalityI)
    show "length (img ! i) = length (raster_of p ! i)" using len by (simp add: row)
  next
    fix j assume "j < length (img ! i)"
    then have j160: "j < 160" using len by simp
    have "img ! i ! j = Some (p (int i) (int j))"
      using px[of "int i" "int j"] i200 j160 by (simp add: px_def)
    also have "\<dots> = raster_of p ! i ! j"
      using raster_of_px[of "int i" "int j" p] i200 j160 by simp
    finally show "img ! i ! j = raster_of p ! i ! j" .
  qed
qed

lemma reconstruct_eq:
  assumes "wf_image im" "length pal = 16"
  shows "reconstruct sc pal im = Some (raster_of (pixel_of sc pal im))"
proof -
  from reconstruct_ok[OF assms, of sc] obtain img where
    r: "reconstruct sc pal im = Some img" and sh: "shape img"
    and p: "\<forall>Y X. 0 \<le> Y \<longrightarrow> Y < 200 \<longrightarrow> 0 \<le> X \<longrightarrow> X < 160
               \<longrightarrow> px img Y X = Some (pixel_of sc pal im Y X)"
    by blast
  have "img = raster_of (pixel_of sc pal im)"
    by (rule raster_eq[OF sh]) (use p in blast)
  with r show ?thesis by simp
qed

lemma raster_of_cong:
  assumes "\<And>Y X. 0 \<le> Y \<Longrightarrow> Y < 200 \<Longrightarrow> 0 \<le> X \<Longrightarrow> X < 160 \<Longrightarrow> p Y X = q Y X"
  shows "raster_of p = raster_of q"
  unfolding raster_of_def using assms by simp

lemma pixel_at:
  assumes wf: "wf_image im" and len: "length pal = 16"
    and Y: "0 \<le> Y" "Y < 200" and X: "0 \<le> X" "X < 160"
  shows "\<exists>outimage. reconstruct sc pal im = Some outimage
           \<and> outimage ! nat Y ! nat X = Some (pixel_of sc pal im Y X)"
  using reconstruct_eq[OF wf len, of sc] raster_of_px[OF Y X] by simp

lemma pixel_of_card:
  assumes "0 \<le> y" "y < 8" "0 \<le> k" "k < 4"
  shows "pixel_of sc pal im (8 * cardy + y) (4 * cardx + k)
         = card_colors sc pal im cardy cardx
             ! nat (pixel_code (char_val sc (bitmap_byte im cardy cardx y)) (6 - 2 * k))"
proof -
  have "(8 * cardy + y) div 8 = cardy" "(8 * cardy + y) mod 8 = y"
       "(4 * cardx + k) div 4 = cardx" "(4 * cardx + k) mod 4 = k"
    using assms by auto
  then show ?thesis by (simp add: pixel_of_def)
qed

lemma card_pixel:
  assumes wf: "wf_image im" and len: "length pal = 16"
    and cy: "0 \<le> cardy" "cardy < 25" and cx: "0 \<le> cardx" "cardx < 40"
    and y: "0 \<le> y" "y < 8" and k: "0 \<le> k" "k < 4"
  shows "\<exists>outimage. reconstruct sc pal im = Some outimage
           \<and> outimage ! nat (8 * cardy + y) ! nat (4 * cardx + k)
             = Some (card_colors sc pal im cardy cardx
                 ! nat (pixel_code (char_val sc (bitmap_byte im cardy cardx y)) (6 - 2 * k)))"
proof -
  have "0 \<le> 8 * cardy + y" "8 * cardy + y < 200" "0 \<le> 4 * cardx + k" "4 * cardx + k < 160"
    using cy cx y k by auto
  from pixel_at[OF wf len this, of sc] show ?thesis
    by (simp add: pixel_of_card[OF y k])
qed

lemma color_high_nibble_unused:
  assumes wf: "wf_image im" and wf': "wf_image im'" and len: "length pal = 16"
    and same: "bitmap im' = bitmap im" "video im' = video im" "bg im' = bg im"
    and low: "map (\<lambda>w. w AND 0x0F) (color im') = map (\<lambda>w. w AND 0x0F) (color im)"
  shows "reconstruct sc pal im' = reconstruct sc pal im"
proof -
  have "pixel_of sc pal im' Y X = pixel_of sc pal im Y X"
    if "0 \<le> Y" "Y < 200" "0 \<le> X" "X < 160" for Y X
  proof -
    let ?n = "nat (Y div 8 * 40 + X div 4)"
    have "Y div 8 < 25" "X div 4 < 40" "0 \<le> Y div 8" "0 \<le> X div 4" using that by auto
    then have n: "?n < 1000" by simp
    have "map (\<lambda>w. w AND 0x0F) (color im') ! ?n = map (\<lambda>w. w AND 0x0F) (color im) ! ?n"
      using low by simp
    then have "color im' ! ?n AND 15 = color im ! ?n AND 15"
      using n wf wf' by (simp add: wf_image_def)
    then have "local_table pal (bg im) (video im ! ?n) (color im' ! ?n)
             = local_table pal (bg im) (video im ! ?n) (color im ! ?n)"
      using local_table_mask[of pal "bg im" "video im ! ?n" "color im' ! ?n"]
        local_table_mask[of pal "bg im" "video im ! ?n" "color im ! ?n"] by simp
    then show ?thesis
      by (simp add: pixel_of_def card_colors_table same bitmap_byte_def)
  qed
  then have "raster_of (pixel_of sc pal im') = raster_of (pixel_of sc pal im)"
    by (rule raster_of_cong)
  then show ?thesis by (simp add: reconstruct_eq[OF wf len] reconstruct_eq[OF wf' len])
qed

section \<open>Input and output\<close>

lemma fread_fill:
  "fread (replicate n d) n f = (fill n d f, drop n f, n \<le> length f)"
  by (simp add: fread_def fill_def)

lemma fill_nil: "fill n d [] = replicate n d"
  by (simp add: fill_def)

lemma read_koala_eq:
  "read_koala f =
     (\<lparr>bitmap = fill 8000 0x1b (drop 2 f), video = fill 1000 0x25 (drop 8002 f),
       color = fill 1000 0x06 (drop 9002 f),
       bg = (if 10003 \<le> length f then f ! 10002 else 0)\<rparr>,
      drop 10003 f, 10003 \<le> length f)"
proof -
  have a: "fread [0, 0] 2 f = (fill 2 0 f, drop 2 f, 2 \<le> length f)"
    using fread_fill[of 2 0 f] by (simp add: numeral_2_eq_2)
  have b: "fread [0] 1 g = (fill 1 0 g, drop 1 g, 1 \<le> length g)" for g
    using fread_fill[of 1 0 g] by simp
  have c: "fill 1 0 (drop 10002 f) ! 0 = f ! 10002" if "10003 \<le> length f"
    using that by (simp add: fill_def nth_append hd_drop_conv_nth take_Suc)
  show ?thesis
    unfolding read_koala_def Let_def a fread_fill b
    using c by (simp add: fill_nil) arith
qed

lemma length_fill: "length (fill n d xs) = n"
  by (simp add: fill_def)

lemma nth_fill: "i < n \<Longrightarrow> fill n d xs ! i = (if i < length xs then xs ! i else d)"
  by (simp add: fill_def nth_append)

lemma read_koala_image: "read_koala f = (koala_image f, drop 10003 f, 10003 \<le> length f)"
  by (simp add: read_koala_eq koala_image_def)

lemma wf_koala_image: "wf_image (koala_image f)"
  by (simp add: wf_image_def koala_image_def length_fill)

lemma koala_image_bitmap:
  "i < 8000 \<Longrightarrow> bitmap (koala_image f) ! i = (if i + 2 < length f then f ! (i + 2) else 0x1b)"
  by (auto simp add: koala_image_def nth_fill add.commute)

lemma koala_image_video:
  "i < 1000 \<Longrightarrow> video (koala_image f) ! i = (if i + 8002 < length f then f ! (i + 8002) else 0x25)"
  by (auto simp add: koala_image_def nth_fill add.commute)

lemma koala_image_color:
  "i < 1000 \<Longrightarrow> color (koala_image f) ! i = (if i + 9002 < length f then f ! (i + 9002) else 0x06)"
  by (auto simp add: koala_image_def nth_fill add.commute)

lemma put_pixel_raster:
  assumes "0 \<le> Y" "Y < 200" "0 \<le> X" "X < 160"
  shows "put_pixel (raster_of p) Y X out = Some (out @ rgb_bytes (p Y X))"
proof -
  have "arr_get (raster_of p) Y = Some (map (\<lambda>X. Some (p Y X)) [0..159])"
    using assms by (simp add: arr_get_def raster_of_row) (simp add: raster_of_def)
  moreover have "arr_get (map (\<lambda>X. Some (p Y X)) [0..159]) X = Some (Some (p Y X))"
    using assms by (simp add: arr_get_def upto_nth)
  ultimately show ?thesis by (simp add: put_pixel_def)
qed

lemma upto_snoc: "0 \<le> j \<Longrightarrow> [0..j] = [0..j - 1] @ [j]"
  by (simp add: upto_rec2)

lemma write_row:
  assumes Y: "0 \<le> Y" "Y < 200"
  shows "for_loop 0 160 (put_pixel (raster_of p) Y) out
         = Some (out @ concat (map (\<lambda>X. rgb_bytes (p Y X)) [0..159]))"
proof -
  let ?I = "\<lambda>j s. s = out @ concat (map (\<lambda>X. rgb_bytes (p Y X)) [0..j - 1])"
  have "\<exists>s'. for_loop 0 160 (put_pixel (raster_of p) Y) out = Some s' \<and> ?I 160 s'"
  proof (rule for_loop_rule[where I = ?I])
    show "(0::int) \<le> 160" by simp
    show "?I 0 out" by simp
  next
    fix X s assume X: "0 \<le> X" "X < 160" and I: "?I X s"
    have "[0..X + 1 - 1] = [0..X - 1] @ [X]" using upto_snoc[OF X(1)] by simp
    then show "\<exists>s'. put_pixel (raster_of p) Y X s = Some s' \<and> ?I (X + 1) s'"
      using I by (simp add: put_pixel_raster[OF Y X])
  qed
  then show ?thesis by simp
qed

lemma write_ppm_raster: "write_ppm (raster_of p) = Some (ppm_header @ payload p)"
proof -
  let ?row = "\<lambda>Y. concat (map (\<lambda>X. rgb_bytes (p Y X)) [0..159])"
  let ?I = "\<lambda>j s. s = ppm_header @ concat (map ?row [0..j - 1])"
  have "\<exists>s'. for_loop 0 200 (\<lambda>y. for_loop 0 160 (put_pixel (raster_of p) y)) ppm_header = Some s'
             \<and> ?I 200 s'"
  proof (rule for_loop_rule[where I = ?I])
    show "(0::int) \<le> 200" by simp
    show "?I 0 ppm_header" by simp
  next
    fix Y s assume Y: "0 \<le> Y" "Y < 200" and I: "?I Y s"
    have "[0..Y + 1 - 1] = [0..Y - 1] @ [Y]" using upto_snoc[OF Y(1)] by simp
    then show "\<exists>s'. for_loop 0 160 (put_pixel (raster_of p) Y) s = Some s' \<and> ?I (Y + 1) s'"
      using I by (simp add: write_row[OF Y])
  qed
  then show ?thesis by (simp add: write_ppm_def payload_def)
qed

lemma dump_raster: "dump (raster_of p) = payload p"
  by (simp add: dump_def raster_of_def payload_def comp_def)

lemma length_rgb_bytes: "length (rgb_bytes c) = 3"
  by (simp add: rgb_bytes_def)

lemma length_concat_const:
  "(\<And>x. x \<in> set xs \<Longrightarrow> length (f x) = k) \<Longrightarrow> length (concat (map f xs)) = k * length xs"
  by (induction xs) simp_all

lemma length_payload: "length (payload p) = 96000"
proof -
  have row: "length (concat (map (\<lambda>X. rgb_bytes (p Y X)) [0..159])) = 480" for Y
    using length_concat_const[of "[0..159]" "\<lambda>X. rgb_bytes (p Y X)" 3]
    by (simp add: length_rgb_bytes)
  show ?thesis
    unfolding payload_def
    using length_concat_const[of "[0..199]" "\<lambda>Y. concat (map (\<lambda>X. rgb_bytes (p Y X)) [0..159])" 480]
    by (simp add: row)
qed

lemma nth_concat_const:
  assumes "\<And>x. x \<in> set xs \<Longrightarrow> length (f x) = k" "i < length xs" "j < k"
  shows "concat (map f xs) ! (i * k + j) = f (xs ! i) ! j"
  using assms
proof (induction xs arbitrary: i)
  case Nil
  then show ?case by simp
next
  case (Cons x xs)
  have lx: "length (f x) = k" using Cons.prems(1) by simp
  show ?case
  proof (cases i)
    case 0
    then show ?thesis using Cons.prems(3) lx by (simp add: nth_append)
  next
    case (Suc i')
    have "concat (map f xs) ! (i' * k + j) = f (xs ! i') ! j"
      using Cons.prems Suc by (intro Cons.IH) auto
    then show ?thesis using Suc lx by (simp add: nth_append)
  qed
qed

lemma nth_upto0: "i \<le> n \<Longrightarrow> [0..int n] ! i = int i"
  by simp

lemma payload_nth:
  assumes Y: "Y < 200" and X: "X < 160" and c: "c < 3"
  shows "payload p ! (3 * (160 * Y + X) + c) = rgb_bytes (p (int Y) (int X)) ! c"
proof -
  let ?row = "\<lambda>Y. concat (map (\<lambda>X. rgb_bytes (p Y X)) [0..159])"
  have rowlen: "length (?row y) = 480" for y
    using length_concat_const[of "[0..159]" "\<lambda>X. rgb_bytes (p y X)" 3]
    by (simp add: length_rgb_bytes)
  have ix: "3 * (160 * Y + X) + c = Y * 480 + (X * 3 + c)" by simp
  have "X * 3 + c < 480" using X c by simp
  then have "payload p ! (Y * 480 + (X * 3 + c)) = ?row ([0..199] ! Y) ! (X * 3 + c)"
    unfolding payload_def using Y
    by (intro nth_concat_const) (simp_all add: rowlen)
  also have "[0..199] ! Y = int Y" using nth_upto0[of Y 199] Y by simp
  also have "?row (int Y) ! (X * 3 + c) = rgb_bytes (p (int Y) ([0..159] ! X)) ! c"
    using X c by (intro nth_concat_const) (simp_all add: length_rgb_bytes)
  also have "[0..159] ! X = int X" using nth_upto0[of X 159] X by simp
  finally show ?thesis by (simp only: ix)
qed

lemma byte_of_char_of_nat: "(of_char (char_of (n::nat)) :: byte) = of_nat (n mod 256)"
proof -
  have "(of_char (char_of n) :: byte) = of_nat (of_char (char_of n))"
    by (simp only: of_nat_of_char)
  then show ?thesis by (simp only: of_char_of)
qed

lemma ppm_header_bytes:
  "ppm_header = [0x50, 0x36, 0x0A, 0x31, 0x36, 0x30, 0x20, 0x32, 0x30, 0x30, 0x0A, 0x32, 0x35, 0x35, 0x0A]"
  by (simp add: ppm_header_def printf_d_def show_nat.simps byte_of_char_of_nat)

section \<open>The palette\<close>

text \<open>Roundings.\<close>

lemma f_le_Fin: "f_le (Fin x) (Fin y) = (x \<le> y)"
  by (auto simp add: f_le_def)

lemma f_le_Fin_left: "f_le (Fin x) b \<Longrightarrow> b \<noteq> MInf \<and> b \<noteq> NaN"
  by (cases b) (simp_all add: f_le_def)

lemma f_le_Fin_right: "f_le a (Fin y) \<Longrightarrow> a \<noteq> PInf \<and> a \<noteq> NaN"
  by (cases a) (simp_all add: f_le_def)

lemma rounding_half:
  assumes "rounding rd" "\<bar>k\<bar> \<le> 1024"
  shows "rd (of_int k / 2) = Fin (of_int k / 2)"
  using assms by (simp add: rounding_def)

lemma rounding_int:
  assumes "rounding rd" "\<bar>k\<bar> \<le> 512"
  shows "rd (of_int k) = Fin (of_int k)"
  using rounding_half[OF assms(1), of "2 * k"] assms(2) by simp

lemma rounding_0: "rounding rd \<Longrightarrow> rd 0 = Fin 0"
  using rounding_int[of rd 0] by simp

lemma rounding_1_2: "rounding rd \<Longrightarrow> rd (1 / 2) = Fin (1 / 2)"
  using rounding_half[of rd 1] by simp

lemma rounding_mono: "rounding rd \<Longrightarrow> x \<le> y \<Longrightarrow> f_le (rd x) (rd y)"
  by (simp add: rounding_def)

lemma rounding_idem: "rounding rd \<Longrightarrow> rd x = Fin y \<Longrightarrow> rd y = Fin y"
  unfolding rounding_def by blast

lemma rounding_between:
  assumes r: "rounding rd" and lo: "\<bar>i\<bar> \<le> 512" and hi: "\<bar>j\<bar> \<le> 512"
    and x: "of_int i \<le> x" "x \<le> of_int j"
  shows "\<exists>y. rd x = Fin y \<and> of_int i \<le> y \<and> y \<le> of_int j"
proof -
  have a: "f_le (Fin (of_int i)) (rd x)"
    using rounding_mono[OF r x(1)] by (simp add: rounding_int[OF r lo])
  have b: "f_le (rd x) (Fin (of_int j))"
    using rounding_mono[OF r x(2)] by (simp add: rounding_int[OF r hi])
  from f_le_Fin_left[OF a] f_le_Fin_right[OF b] obtain y where y: "rd x = Fin y"
    by (cases "rd x") auto
  with a b show ?thesis by (simp add: f_le_Fin)
qed

lemma rounding_fin:
  assumes "rounding rd" "0 \<le> x" "x \<le> 512"
  shows "\<exists>y. rd x = Fin y \<and> 0 \<le> y \<and> y \<le> 512"
  using rounding_between[OF assms(1), of 0 512 x] assms(2,3) by simp

lemma literal_fin:
  assumes "rounding rd" "0 \<le> x" "x \<le> 512"
  shows "\<exists>k. rd x = Fin k"
  using rounding_fin[OF assms] by auto

lemma rounding_binary:
  assumes "0 \<le> tiny" "tiny < 1 / 2" "512 < huge"
  shows "rounding (binary_round tiny huge)"
  unfolding rounding_def
proof (intro conjI allI impI)
  fix x y :: real assume "x \<le> y"
  then show "f_le (binary_round tiny huge x) (binary_round tiny huge y)"
    using assms by (auto simp add: binary_round_def f_le_def)
next
  fix x y assume "binary_round tiny huge x = Fin y"
  then show "binary_round tiny huge y = Fin y"
    using assms by (auto simp add: binary_round_def split: if_splits)
next
  fix k :: int assume k: "\<bar>k\<bar> \<le> 1024"
  have "k = 0 \<or> 1 \<le> \<bar>k\<bar>" by linarith
  moreover have "\<bar>real_of_int k\<bar> \<le> 1024" using k by linarith
  ultimately show "binary_round tiny huge (of_int k / 2) = Fin (of_int k / 2)"
    using assms by (auto simp add: binary_round_def)
qed

lemma binary_round_mid:
  assumes "tiny < \<bar>x\<bar>" "\<bar>x\<bar> < huge"
  shows "binary_round tiny huge x = Fin x"
  using assms by (auto simp add: binary_round_def)

lemma float_thresholds: "(1::real) / 2 ^ 150 < 1 / 1024" "(1024::real) < 2 ^ 128 - 2 ^ 103"
  by simp_all

lemma double_thresholds: "(1::real) / 2 ^ 1075 < 1 / 1024" "(1024::real) < 2 ^ 1024 - 2 ^ 970"
  by simp_all

lemma rounding_exact_fp: "rounding (to_float exact_fp)" "rounding (to_double exact_fp)"
  by (simp_all add: exact_fp_def rounding_binary)

lemma exact_float:
  "1 / 1024 \<le> \<bar>x\<bar> \<Longrightarrow> \<bar>x\<bar> \<le> 1024 \<Longrightarrow> to_float exact_fp x = Fin x"
  using float_thresholds by (simp add: exact_fp_def binary_round_mid)

lemma exact_double:
  "1 / 1024 \<le> \<bar>x\<bar> \<Longrightarrow> \<bar>x\<bar> \<le> 1024 \<Longrightarrow> to_double exact_fp x = Fin x"
  using double_thresholds by (simp add: exact_fp_def binary_round_mid)

lemma exact_zero: "to_float exact_fp 0 = Fin 0" "to_double exact_fp 0 = Fin 0"
  by (simp_all add: exact_fp_def binary_round_def)

text \<open>The clamp and the scaling: in range unless the value is NaN.\<close>

lemma BOUND_cases:
  "BOUND a = NaN \<and> a = NaN \<or> (\<exists>x. BOUND a = Fin x \<and> 0 \<le> x \<and> x \<le> 1)"
  by (cases a) (auto simp add: BOUND_def)

lemma BOUND_range: "a \<noteq> NaN \<Longrightarrow> \<exists>x. BOUND a = Fin x \<and> 0 \<le> x \<and> x \<le> 1"
  using BOUND_cases[of a] by auto

lemma scale_255_range:
  assumes f: "rounding (to_float fp)" and d: "rounding (to_double fp)"
    and x: "0 \<le> x" "x \<le> 1"
  shows "0 \<le> scale_255 fp (Fin x) \<and> scale_255 fp (Fin x) \<le> 255"
proof -
  from rounding_between[OF f, of 0 255 "255 * x"] x
  obtain p where p: "to_float fp (255 * x) = Fin p" "0 \<le> p" "p \<le> 255" by auto
  have "f_le (to_double fp (1 / 2)) (to_double fp (p + 1 / 2))"
    using p(2) by (intro rounding_mono[OF d]) simp
  then have lo: "f_le (Fin (1 / 2)) (to_double fp (p + 1 / 2))"
    by (simp add: rounding_1_2[OF d])
  have "f_le (to_double fp (p + 1 / 2)) (to_double fp (of_int 511 / 2))"
    using p(3) by (intro rounding_mono[OF d]) simp
  then have hi: "f_le (to_double fp (p + 1 / 2)) (Fin (511 / 2))"
    using rounding_half[OF d, of 511] by simp
  from f_le_Fin_left[OF lo] f_le_Fin_right[OF hi] obtain s
    where s: "to_double fp (p + 1 / 2) = Fin s" by (cases "to_double fp (p + 1 / 2)") auto
  with lo hi have s0: "1 / 2 \<le> s" and s1: "s \<le> 511 / 2" by (simp_all add: f_le_Fin)
  have "0 \<le> \<lfloor>s\<rfloor>" using s0 by simp
  moreover have "\<lfloor>s\<rfloor> \<le> 255" using s1 by (simp add: floor_le_iff)
  ultimately show ?thesis using s0 s1 p(1) s by (simp add: scale_255_def to_int_def)
qed

lemma scale_255_BOUND:
  assumes "rounding (to_float fp)" and "rounding (to_double fp)" and "a \<noteq> NaN"
  shows "0 \<le> scale_255 fp (BOUND a) \<and> scale_255 fp (BOUND a) \<le> 255"
  using BOUND_range[OF assms(3)] scale_255_range[OF assms(1,2)] by auto

lemma scale_255_NaN: "scale_255 fp NaN = int_indefinite fp"
  by (simp add: scale_255_def to_int_def)

lemma length_init_colors: "length (init_colors fp sat) = 16"
  by (simp add: init_colors_def)

lemma init_colors_nth:
  "i < 16 \<Longrightarrow> init_colors fp sat ! i
     = c64_to_rgb fp sat (c64_colors ! i)
         (f_conv (to_float fp) (USCALE fp)) (f_conv (to_float fp) (VSCALE fp))"
  by (simp add: init_colors_def)

lemma c64_colors_range:
  assumes "i < 16"
  shows "0 \<le> angle (c64_colors ! i) \<and> angle (c64_colors ! i) \<le> 15
       \<and> 0 \<le> luma (c64_colors ! i) \<and> luma (c64_colors ! i) \<le> 32
       \<and> 0 \<le> saturation (c64_colors ! i) \<and> saturation (c64_colors ! i) \<le> 1"
proof -
  have "\<forall>c \<in> set c64_colors. 0 \<le> angle c \<and> angle c \<le> 15 \<and> 0 \<le> luma c \<and> luma c \<le> 32
          \<and> 0 \<le> saturation c \<and> saturation c \<le> 1"
    by (simp add: c64_colors_def)
  moreover have "c64_colors ! i \<in> set c64_colors"
    using assms by (intro nth_mem) (simp add: c64_colors_def)
  ultimately show ?thesis by blast
qed

text \<open>Saturation 0.\<close>

lemma f_mul_zero_right: "rounding rd \<Longrightarrow> f_mul rd (Fin x) (Fin 0) = Fin 0"
  by (simp add: rounding_0)

lemma f_mul_zero_left: "rounding rd \<Longrightarrow> f_mul rd (Fin 0) (Fin y) = Fin 0"
  by (simp add: rounding_0)

lemma scale_fin:
  assumes f: "rounding (to_float fp)" and d: "rounding (to_double fp)"
  shows "\<exists>u. f_conv (to_float fp) (USCALE fp) = Fin u"
    and "\<exists>u. f_conv (to_float fp) (VSCALE fp) = Fin u"
proof -
  from rounding_fin[OF d, of "1331 / 10000"] obtain u0
    where u0: "to_double fp (1331 / 10000) = Fin u0" "0 \<le> u0" "u0 \<le> 512" by auto
  from rounding_fin[OF f u0(2,3)] obtain u1 where "to_float fp u0 = Fin u1" by auto
  with u0(1) show "\<exists>u. f_conv (to_float fp) (USCALE fp) = Fin u"
    and "\<exists>u. f_conv (to_float fp) (VSCALE fp) = Fin u"
    by (simp_all add: USCALE_def VSCALE_def)
qed

lemma arg_fin:
  assumes d: "rounding (to_double fp)" and a: "0 \<le> n" "n \<le> 15"
  shows "\<exists>x. f_div (to_double fp) (f_mul (to_double fp) (Fin (of_int n)) (M_PI fp)) 8 = Fin x"
proof -
  from rounding_between[OF d, of 3 4 "314159265358979323846 / 100000000000000000000"]
  obtain m where m: "M_PI fp = Fin m" "3 \<le> m" "m \<le> 4" by (auto simp add: M_PI_def)
  have "0 \<le> of_int n * m" using a(1) m(2) by simp
  moreover have "of_int n * m \<le> 15 * 4"
    using a m(2,3) by (intro mult_mono) simp_all
  ultimately obtain p where p: "to_double fp (of_int n * m) = Fin p" "0 \<le> p" "p \<le> 512"
    using rounding_fin[OF d, of "of_int n * m"] by auto
  from rounding_fin[OF d, of "p / 8"] p(2,3) obtain q where "to_double fp (p / 8) = Fin q"
    by auto
  with m(1) p(1) show ?thesis by simp
qed

lemma yuv_zero_saturation:
  assumes f: "rounding (to_float fp)" and d: "rounding (to_double fp)" and i: "i < 16"
  shows "yuv_u (c64_to_yuv fp (Fin 0) (c64_colors ! i)
                  (f_conv (to_float fp) (USCALE fp)) (f_conv (to_float fp) (VSCALE fp))) = Fin 0"
    and "yuv_v (c64_to_yuv fp (Fin 0) (c64_colors ! i)
                  (f_conv (to_float fp) (USCALE fp)) (f_conv (to_float fp) (VSCALE fp))) = Fin 0"
    and "\<exists>y. yuv_y (c64_to_yuv fp (Fin 0) (c64_colors ! i)
                  (f_conv (to_float fp) (USCALE fp)) (f_conv (to_float fp) (VSCALE fp))) = Fin y"
proof -
  note rg = c64_colors_range[OF i]
  from scale_fin[OF f d] obtain us vs
    where us: "f_conv (to_float fp) (USCALE fp) = Fin us"
      and vs: "f_conv (to_float fp) (VSCALE fp) = Fin vs" by auto
  from arg_fin[OF d, of "angle (c64_colors ! i)"] rg obtain a
    where a: "f_div (to_double fp)
                (f_mul (to_double fp) (Fin (of_int (angle (c64_colors ! i)))) (M_PI fp)) 8 = Fin a"
    by auto
  show "yuv_u (c64_to_yuv fp (Fin 0) (c64_colors ! i)
                  (f_conv (to_float fp) (USCALE fp)) (f_conv (to_float fp) (VSCALE fp))) = Fin 0"
    by (simp add: c64_to_yuv_def Let_def us a rounding_0[OF f] rounding_0[OF d])
  show "yuv_v (c64_to_yuv fp (Fin 0) (c64_colors ! i)
                  (f_conv (to_float fp) (USCALE fp)) (f_conv (to_float fp) (VSCALE fp))) = Fin 0"
    by (simp add: c64_to_yuv_def Let_def vs a rounding_0[OF f] rounding_0[OF d])
  have "0 \<le> real_of_int (luma (c64_colors ! i)) / 32" "real_of_int (luma (c64_colors ! i)) / 32 \<le> 512"
    using rg by simp_all
  from rounding_fin[OF d this] obtain y0
    where y0: "to_double fp (real_of_int (luma (c64_colors ! i)) / 32) = Fin y0" "0 \<le> y0" "y0 \<le> 512"
    by auto
  from rounding_fin[OF f y0(2,3)] obtain y1 where "to_float fp y0 = Fin y1" by auto
  with y0(1) show "\<exists>y. yuv_y (c64_to_yuv fp (Fin 0) (c64_colors ! i)
                  (f_conv (to_float fp) (USCALE fp)) (f_conv (to_float fp) (VSCALE fp))) = Fin y"
    by (simp add: c64_to_yuv_def Let_def)
qed

lemma linear_grey:
  assumes f: "rounding (to_float fp)" and d: "rounding (to_double fp)"
    and y: "yuv_y yuv = Fin y" and u: "yuv_u yuv = Fin 0" and v: "yuv_v yuv = Fin 0"
  shows "linear_g fp yuv = linear_r fp yuv" and "linear_b fp yuv = linear_r fp yuv"
proof -
  from literal_fin[OF d, of "113983 / 100000"] obtain k1
    where k1: "to_double fp (113983 / 100000) = Fin k1" by auto
  from literal_fin[OF d, of "39465 / 100000"] obtain k2
    where k2: "to_double fp (39465 / 100000) = Fin k2" by auto
  from literal_fin[OF d, of "58060 / 100000"] obtain k3
    where k3: "to_double fp (58060 / 100000) = Fin k3" by auto
  from literal_fin[OF d, of "203211 / 100000"] obtain k4
    where k4: "to_double fp (203211 / 100000) = Fin k4" by auto
  have r: "linear_r fp yuv = f_conv (to_float fp) (to_double fp y)"
    using k1 by (simp add: linear_r_def y v rounding_0[OF d])
  have b: "linear_b fp yuv = f_conv (to_float fp) (to_double fp y)"
    using k4 by (simp add: linear_b_def y u rounding_0[OF d])
  have g: "linear_g fp yuv
           = f_conv (to_float fp) (f_add (to_double fp) (to_double fp y) (Fin 0))"
    using k2 k3 by (simp add: linear_g_def y u v rounding_0[OF d])
  have "f_add (to_double fp) (to_double fp y) (Fin 0) = to_double fp y"
  proof (cases "to_double fp y")
    case (Fin z)
    then show ?thesis using rounding_idem[OF d Fin] by simp
  qed simp_all
  with g r b show "linear_g fp yuv = linear_r fp yuv" and "linear_b fp yuv = linear_r fp yuv"
    by simp_all
qed

lemma grey_rgb:
  assumes f: "rounding (to_float fp)" and d: "rounding (to_double fp)"
    and y: "yuv_y yuv = Fin y" and u: "yuv_u yuv = Fin 0" and v: "yuv_v yuv = Fin 0"
  shows "rgb_r (yuv_to_rgb fp yuv) = rgb_g (yuv_to_rgb fp yuv)
       \<and> rgb_g (yuv_to_rgb fp yuv) = rgb_b (yuv_to_rgb fp yuv)"
  by (simp add: yuv_to_rgb_def Let_def linear_grey[OF assms])

text \<open>Entries of the palette computed in \<open>exact_fp\<close>.\<close>

lemmas palette_defs = init_colors_nth c64_colors_def c64_to_rgb_def c64_to_yuv_def yuv_to_rgb_def
  linear_r_def linear_g_def linear_b_def BOUND_def scale_255_def to_int_def M_PI_def
  USCALE_def VSCALE_def exact_float exact_double exact_zero Let_def

lemma grey_entry_0: "init_colors exact_fp (Fin 0) ! 0 = \<lparr>rgb_r = 0, rgb_g = 0, rgb_b = 0\<rparr>"
  by (simp add: palette_defs)

lemma grey_entry_2: "init_colors exact_fp (Fin 0) ! 2 = \<lparr>rgb_r = 80, rgb_g = 80, rgb_b = 80\<rparr>"
  by (simp add: palette_defs)

lemma grey_entry_5: "init_colors exact_fp (Fin 0) ! 5 = \<lparr>rgb_r = 128, rgb_g = 128, rgb_b = 128\<rparr>"
  by (simp add: palette_defs)

lemma grey_entry_6: "init_colors exact_fp (Fin 0) ! 6 = \<lparr>rgb_r = 64, rgb_g = 64, rgb_b = 64\<rparr>"
  by (simp add: palette_defs)

lemma int_indefinite_exact: "int_indefinite exact_fp = - 2147483648"
  by (simp add: exact_fp_def)

lemma inf_black:
  "init_colors exact_fp PInf ! 0
   = \<lparr>rgb_r = - 2147483648, rgb_g = - 2147483648, rgb_b = - 2147483648\<rparr>"
  by (simp add: palette_defs int_indefinite_exact)

lemma tiny_negative: "to_float exact_fp (- (1 / 10 ^ 50)) = Fin 0"
  by (simp add: exact_fp_def binary_round_def)

section \<open>The program as a whole\<close>

lemma convert_eq:
  "convert fp sc sat f =
     Some \<lparr>exit_status = 0,
           stdout = ppm_header @ payload (pixel_of sc (init_colors fp sat) (koala_image f)),
           stderr = (if 10003 \<le> length f then [] else [File_too_short]),
           consumed = min (length f) 10003\<rparr>"
  by (simp add: convert_def read_koala_image
      reconstruct_eq[OF wf_koala_image length_init_colors] write_ppm_raster min_def)

lemma main_convert:
  assumes "getargs fp opts args = Inr (sat, name)" "koala_stream files stdin name = Some f"
  shows "main fp sc opts args files stdin = convert fp sc sat f"
  using assms by (cases name) (simp_all add: main_def koala_stream_def)

lemma main_total: "main fp sc opts args files stdin \<noteq> None"
  by (simp add: main_def convert_eq split: sum.split prod.split option.split)

text \<open>The test of \<^verbatim>\<open>getargs\<close> rejects what is negative as a \<^verbatim>\<open>float\<close>.\<close>

lemma getargs_loop_reach:
  assumes "\<forall>x \<in> set before. \<exists>d. x = Opt_s d \<and> \<not> f_lt (f_conv (to_float fp) d) (Fin 0)"
    and "f_lt (f_conv (to_float fp) d) (Fin 0)"
  shows "getargs_loop fp sat (before @ Opt_s d # after) = Inl (1, [Saturation_negative])"
  using assms by (induction before arbitrary: sat) auto

lemma negative_float_rejected:
  assumes "\<forall>x \<in> set before. \<exists>d. x = Opt_s d \<and> \<not> f_lt (f_conv (to_float fp) d) (Fin 0)"
    and "f_lt (f_conv (to_float fp) d) (Fin 0)"
  shows "main fp sc (before @ Opt_s d # after) args files stdin
         = Some \<lparr>exit_status = 1, stdout = [], stderr = [Saturation_negative], consumed = 0\<rparr>"
  by (simp add: main_def getargs_def getargs_loop_reach[OF assms])

text \<open>The bit pairs of \<open>0xE4\<close>.\<close>

lemma wf_im_E4: "wf_image im_E4"
  by (simp add: wf_image_def im_E4_def)

lemma code_E4_bit0: "pixel_code (char_val sc 0xE4) 0 = 0"
  by (simp add: pixel_code_bits)

lemma code_E4_bit2: "pixel_code (char_val sc 0xE4) 2 = 1"
  by (simp add: pixel_code_bits)

lemma code_E4_bit4: "pixel_code (char_val sc 0xE4) 4 = 2"
  by (simp add: pixel_code_bits)

lemma code_E4_bit6: "pixel_code (char_val sc 0xE4) 6 = 3"
  by (simp add: pixel_code_bits)

section \<open>The claims\<close>

text \<open>
  Claim C1. For every card, the colour of each of its pixels is taken from the table whose
  entry 0 is the palette entry of the low nibble of the background byte, entry 1 that of
  the high nibble of the card's video-matrix byte, entry 2 that of its low nibble and
  entry 3 that of the low nibble of the card's colour-RAM byte; and an image that differs
  only in the high nibbles of the colour-RAM bytes gives the same raster.
\<close>

theorem local_color_table:
  assumes "wf_image im" and "wf_image im'" and "length c64colors = 16"
    and "0 \<le> cardy" "cardy < 25" and "0 \<le> cardx" "cardx < 40"
    and "0 \<le> y" "y < 8" and "0 \<le> k" "k < 4"
    and "bitmap im' = bitmap im" and "video im' = video im" and "bg im' = bg im"
    and "map (\<lambda>w. w AND 0x0F) (color im') = map (\<lambda>w. w AND 0x0F) (color im)"
  shows "\<exists>outimage.
           reconstruct signed_char c64colors im = Some outimage
         \<and> outimage ! nat (8 * cardy + y) ! nat (4 * cardx + k)
           = Some (local_table c64colors (bg im) (video im ! nat (cardy * 40 + cardx))
                     (color im ! nat (cardy * 40 + cardx))
                   ! nat (pixel_code (char_val signed_char (bitmap_byte im cardy cardx y))
                            (6 - 2 * k)))
         \<and> reconstruct signed_char c64colors im' = Some outimage"
  using card_pixel[OF assms(1,3-11), of signed_char]
    color_high_nibble_unused[OF assms(1,2,3,12-15), of signed_char]
  by (auto simp add: card_colors_table)

theorem local_color_table_witness:
  "wf_image (koala_image []) \<and> wf_image (koala_image [] \<lparr>color := replicate 1000 0xF6\<rparr>)
   \<and> length (init_colors exact_fp (Fin 0)) = 16
   \<and> (\<exists>outimage.
           reconstruct True (init_colors exact_fp (Fin 0)) (koala_image []) = Some outimage
         \<and> outimage ! 0 ! 0 = Some (init_colors exact_fp (Fin 0) ! 0)
         \<and> reconstruct True (init_colors exact_fp (Fin 0))
              (koala_image [] \<lparr>color := replicate 1000 0xF6\<rparr>) = Some outimage)"
  using local_color_table[where im = "koala_image []"
      and im' = "koala_image [] \<lparr>color := replicate 1000 0xF6\<rparr>"
      and c64colors = "init_colors exact_fp (Fin 0)" and cardy = 0 and cardx = 0 and y = 0 and k = 0
      and signed_char = True]
  by (simp add: wf_image_def koala_image_def fill_def length_init_colors local_table_def
      bitmap_byte_def pixel_code_bits)

text \<open>
  Claim C2. For every card (\<open>cardx\<close> from 0 to 39, \<open>cardy\<close> from 0 to 24), every row \<open>y\<close>
  from 0 to 7 and every bit position \<open>b\<close> among 0, 2, 4 and 6, the pixel at row
  \<open>8 * cardy + y\<close> and column \<open>4 * cardx + (6 - b) / 2\<close> has the colour that the table of
  the card holds for the two bits \<open>b + 1\<close> and \<open>b\<close> of that row's bitmap byte. So the
  bits 7 and 6 are the leftmost of the four columns and the bits 1 and 0 the rightmost.
\<close>

theorem bit_position_to_column:
  assumes "wf_image im" and "length c64colors = 16"
    and "0 \<le> cardy" "cardy < 25" and "0 \<le> cardx" "cardx < 40"
    and "0 \<le> y" "y < 8" and "b \<in> {0, 2, 4, 6}"
  shows "\<exists>outimage.
           reconstruct signed_char c64colors im = Some outimage
         \<and> outimage ! nat (8 * cardy + y) ! nat (4 * cardx + (6 - b) div 2)
           = Some (local_table c64colors (bg im) (video im ! nat (cardy * 40 + cardx))
                     (color im ! nat (cardy * 40 + cardx))
                   ! unat (drop_bit (nat b) (bitmap im ! nat ((cardy * 40 + cardx) * 8 + y))
                           AND 3))"
proof -
  from assms(9) have k: "0 \<le> (6 - b) div 2" "(6 - b) div 2 < 4"
    and b: "6 - 2 * ((6 - b) div 2) = b" "0 \<le> b" "b \<le> 6"
    by auto
  from card_pixel[OF assms(1-8) k, of signed_char] show ?thesis
    by (simp add: b(1) pixel_code_bits[OF b(2,3)] card_colors_table bitmap_byte_def)
qed

theorem bit_position_to_column_witness:
  "wf_image im_E4 \<and> length (init_colors exact_fp (Fin 0)) = 16
   \<and> (6::int) \<in> {0, 2, 4, 6} \<and> (0::int) \<in> {0, 2, 4, 6}
   \<and> (\<exists>outimage.
         reconstruct True (init_colors exact_fp (Fin 0)) im_E4 = Some outimage
       \<and> outimage ! 15 ! 8 = Some \<lparr>rgb_r = 64, rgb_g = 64, rgb_b = 64\<rparr>
       \<and> outimage ! 15 ! 11 = Some \<lparr>rgb_r = 0, rgb_g = 0, rgb_b = 0\<rparr>)"
  using bit_position_to_column[where im = im_E4
      and c64colors = "init_colors exact_fp (Fin 0)" and cardy = 1 and cardx = 2 and y = 7
      and b = 6 and signed_char = True]
    bit_position_to_column[where im = im_E4
      and c64colors = "init_colors exact_fp (Fin 0)" and cardy = 1 and cardx = 2 and y = 7
      and b = 0 and signed_char = True]
  by (simp add: wf_im_E4 length_init_colors)
     (auto simp add: im_E4_def local_table_def grey_entry_0 grey_entry_6)

text \<open>
  Claim C3, as amended. For a bitmap byte \<open>0xE4\<close> (binary 11 10 01 00, the most significant
  pair first), the four columns of that row of the card receive, from left to right, the
  colours of the colour RAM, of the low nibble of the video-matrix byte, of its high
  nibble, and of the background.
\<close>

theorem pattern_E4_order:
  assumes "wf_image im" and "length c64colors = 16"
    and "0 \<le> cardy" "cardy < 25" and "0 \<le> cardx" "cardx < 40"
    and "0 \<le> y" "y < 8"
    and "bitmap_byte im cardy cardx y = 0xE4"
  shows "\<exists>outimage.
           reconstruct signed_char c64colors im = Some outimage
         \<and> outimage ! nat (8 * cardy + y) ! nat (4 * cardx + 0)
           = Some (c64colors ! unat (color im ! nat (cardy * 40 + cardx) AND 0x0F))
         \<and> outimage ! nat (8 * cardy + y) ! nat (4 * cardx + 1)
           = Some (c64colors ! unat (video im ! nat (cardy * 40 + cardx) AND 0x0F))
         \<and> outimage ! nat (8 * cardy + y) ! nat (4 * cardx + 2)
           = Some (c64colors ! unat (drop_bit 4 (video im ! nat (cardy * 40 + cardx)) AND 0x0F))
         \<and> outimage ! nat (8 * cardy + y) ! nat (4 * cardx + 3)
           = Some (c64colors ! unat (bg im AND 0x0F))"
  using card_pixel[OF assms(1-8), of 0 signed_char] card_pixel[OF assms(1-8), of 1 signed_char]
    card_pixel[OF assms(1-8), of 2 signed_char] card_pixel[OF assms(1-8), of 3 signed_char]
  by (auto simp add: assms(9) code_E4_bit0 code_E4_bit2 code_E4_bit4 code_E4_bit6 card_colors_table local_table_def)

theorem pattern_E4_order_witness:
  "wf_image im_E4 \<and> length (init_colors exact_fp (Fin 0)) = 16 \<and> bitmap_byte im_E4 0 0 0 = 0xE4
   \<and> (\<exists>outimage.
         reconstruct False (init_colors exact_fp (Fin 0)) im_E4 = Some outimage
       \<and> outimage ! 0 ! 0 = Some \<lparr>rgb_r = 64, rgb_g = 64, rgb_b = 64\<rparr>
       \<and> outimage ! 0 ! 1 = Some \<lparr>rgb_r = 128, rgb_g = 128, rgb_b = 128\<rparr>
       \<and> outimage ! 0 ! 2 = Some \<lparr>rgb_r = 80, rgb_g = 80, rgb_b = 80\<rparr>
       \<and> outimage ! 0 ! 3 = Some \<lparr>rgb_r = 0, rgb_g = 0, rgb_b = 0\<rparr>)"
  using pattern_E4_order[where im = im_E4 and c64colors = "init_colors exact_fp (Fin 0)"
      and cardy = 0 and cardx = 0 and y = 0 and signed_char = False]
  by (simp add: wf_im_E4 length_init_colors bitmap_byte_def grey_entry_0 grey_entry_2 grey_entry_5 grey_entry_6)
     (simp add: im_E4_def grey_entry_0 grey_entry_2 grey_entry_5 grey_entry_6)

text \<open>
  Claim C3 as it was stated puts the background colour in the leftmost column. In the
  image \<open>im_E4\<close> (video bytes \<open>0x25\<close>, colour bytes \<open>0x06\<close>, background 0) with the grey
  palette of saturation 0, the leftmost pixel of the first card is entry 6, the colour
  of the colour RAM, and the rightmost is entry 0, the background.
\<close>

theorem pattern_E4_claimed_order_counterexample:
  "bitmap_at im_E4 0 0 0 = Some 0xE4
   \<and> reconstruct False (init_colors exact_fp (Fin 0)) im_E4 \<noteq> None
   \<and> the (reconstruct False (init_colors exact_fp (Fin 0)) im_E4) ! 0 ! 0
       = Some \<lparr>rgb_r = 64, rgb_g = 64, rgb_b = 64\<rparr>
   \<and> the (reconstruct False (init_colors exact_fp (Fin 0)) im_E4) ! 0 ! 3
       = Some \<lparr>rgb_r = 0, rgb_g = 0, rgb_b = 0\<rparr>
   \<and> init_colors exact_fp (Fin 0) ! nat (bg_index (bg im_E4)) = \<lparr>rgb_r = 0, rgb_g = 0, rgb_b = 0\<rparr>
   \<and> init_colors exact_fp (Fin 0) ! nat (lo_index False (color im_E4 ! 0))
       = \<lparr>rgb_r = 64, rgb_g = 64, rgb_b = 64\<rparr>
   \<and> the (reconstruct False (init_colors exact_fp (Fin 0)) im_E4) ! 0 ! 0
       \<noteq> Some (init_colors exact_fp (Fin 0) ! nat (bg_index (bg im_E4)))
   \<and> the (reconstruct False (init_colors exact_fp (Fin 0)) im_E4) ! 0 ! 3
       \<noteq> Some (init_colors exact_fp (Fin 0) ! nat (lo_index False (color im_E4 ! 0)))"
proof -
  let ?p = "pixel_of False (init_colors exact_fp (Fin 0)) im_E4"
  have "reconstruct False (init_colors exact_fp (Fin 0)) im_E4 = Some (raster_of ?p)"
    by (rule reconstruct_eq[OF wf_im_E4 length_init_colors])
  moreover have "raster_of ?p ! 0 ! 0 = Some (?p 0 0)"
    using raster_of_px[of 0 0 ?p] by simp
  moreover have "raster_of ?p ! 0 ! 3 = Some (?p 0 3)"
    using raster_of_px[of 0 3 ?p] by simp
  moreover have "?p 0 0 = \<lparr>rgb_r = 64, rgb_g = 64, rgb_b = 64\<rparr>"
    by (simp add: pixel_of_def card_colors_table local_table_def bitmap_byte_def im_E4_def
        code_E4_bit6 grey_entry_6)
  moreover have "?p 0 3 = \<lparr>rgb_r = 0, rgb_g = 0, rgb_b = 0\<rparr>"
    by (simp add: pixel_of_def card_colors_table local_table_def bitmap_byte_def im_E4_def
        code_E4_bit0 grey_entry_0)
  moreover have "bitmap_at im_E4 0 0 0 = Some 0xE4"
    by (simp add: bitmap_at_def arr_get_def im_E4_def)
  moreover have "init_colors exact_fp (Fin 0) ! nat (bg_index (bg im_E4))
        = \<lparr>rgb_r = 0, rgb_g = 0, rgb_b = 0\<rparr>"
    by (simp add: bg_index_def im_E4_def grey_entry_0)
  moreover have "init_colors exact_fp (Fin 0) ! nat (lo_index False (color im_E4 ! 0))
        = \<lparr>rgb_r = 64, rgb_g = 64, rgb_b = 64\<rparr>"
    by (simp add: lo_index_nibble im_E4_def grey_entry_6)
  ultimately show ?thesis by simp
qed

text \<open>
  Claim C4. Whatever the input holds, the output is the 15 bytes of the lines \<^verbatim>\<open>P6\<close>, \<^verbatim>\<open>160 200\<close> and \<^verbatim>\<open>255\<close>, each ended by a newline,
  followed by the 96000 bytes of the raster of 200 rows and 160 columns: rows from top to
  bottom, the pixels of a row from left to right, each pixel as the three bytes red,
  green, blue, with nothing in between; 96015 bytes in all. The pixel of row \<open>Y\<close> and
  column \<open>X\<close> starts at offset \<open>15 + 3 * (160 * Y + X)\<close>.
\<close>

theorem ppm_output:
  assumes "getargs fp opts args = Inr (sat, koalafilename)"
    and "koala_stream files stdin koalafilename = Some koalafile"
    and "Y < 200" and "X < 160"
  shows "\<exists>outimage oc.
           reconstruct signed_char (init_colors fp sat) (fst (read_koala koalafile)) = Some outimage
         \<and> main fp signed_char opts args files stdin = Some oc
         \<and> length outimage = 200 \<and> length (outimage ! Y) = 160
         \<and> stdout oc = ppm_header @ dump outimage
         \<and> ppm_header = [0x50, 0x36, 0x0A, 0x31, 0x36, 0x30, 0x20, 0x32, 0x30, 0x30, 0x0A,
                          0x32, 0x35, 0x35, 0x0A]
         \<and> length (dump outimage) = 96000
         \<and> length (stdout oc) = 96015
         \<and> stdout oc ! (15 + 3 * (160 * Y + X)) = word_of_int (rgb_r (the (outimage ! Y ! X)))
         \<and> stdout oc ! (15 + 3 * (160 * Y + X) + 1) = word_of_int (rgb_g (the (outimage ! Y ! X)))
         \<and> stdout oc ! (15 + 3 * (160 * Y + X) + 2) = word_of_int (rgb_b (the (outimage ! Y ! X)))"
proof -
  let ?pal = "init_colors fp sat"
  let ?p = "pixel_of signed_char ?pal (koala_image koalafile)"
  have rec: "reconstruct signed_char ?pal (fst (read_koala koalafile)) = Some (raster_of ?p)"
    by (simp add: read_koala_image reconstruct_eq[OF wf_koala_image length_init_colors])
  have run: "main fp signed_char opts args files stdin
      = Some \<lparr>exit_status = 0, stdout = ppm_header @ payload ?p,
              stderr = (if 10003 \<le> length koalafile then [] else [File_too_short]),
              consumed = min (length koalafile) 10003\<rparr>"
    by (simp add: main_convert[OF assms(1,2)] convert_eq)
  have hl: "length ppm_header = 15" by (simp add: ppm_header_bytes)
  have cell: "raster_of ?p ! Y ! X = Some (?p (int Y) (int X))"
    using raster_of_px[of "int Y" "int X" ?p] assms(3,4) by simp
  have len: "length (raster_of ?p) = 200" "length (raster_of ?p ! Y) = 160"
    using shape_raster_of[of ?p] assms(3) by (simp_all add: shape_def)
  have nth: "(ppm_header @ payload ?p) ! (15 + 3 * (160 * Y + X) + c)
             = rgb_bytes (?p (int Y) (int X)) ! c" if "c < 3" for c
  proof -
    have "(ppm_header @ payload ?p) ! (length ppm_header + (3 * (160 * Y + X) + c))
          = payload ?p ! (3 * (160 * Y + X) + c)"
      by (rule nth_append_length_plus)
    then show ?thesis
      using payload_nth[OF assms(3,4) that, of ?p] by (simp only: hl add.assoc)
  qed
  show ?thesis
    using rec run len cell nth[of 0] nth[of 1] nth[of 2] hl
    by (simp add: dump_raster length_payload ppm_header_bytes[symmetric] rgb_bytes_def)
qed

theorem ppm_output_witness:
  "getargs exact_fp [] [] = Inr (Fin 1, None) \<and> koala_stream (\<lambda>name. None) [] None = Some []
   \<and> (\<exists>outimage oc.
           reconstruct True (init_colors exact_fp (Fin 1)) (fst (read_koala [])) = Some outimage
         \<and> main exact_fp True [] [] (\<lambda>name. None) [] = Some oc
         \<and> stdout oc = ppm_header @ dump outimage
         \<and> length (stdout oc) = 96015
         \<and> stdout oc ! 15 = word_of_int (rgb_r (the (outimage ! 0 ! 0))))"
  using ppm_output[where opts = "[]" and args = "[]" and sat = "Fin 1" and koalafilename = None
      and files = "\<lambda>name. None" and stdin = "[]" and koalafile = "[]" and Y = 0 and X = 0
      and signed_char = True and fp = exact_fp]
  by (simp add: getargs_def SATURATION_def koala_stream_def exact_float exact_double) blast

text \<open>
  Claim C5, as amended. If the stream is shorter than the 10003 bytes that the five reads
  ask for, decoding does not fail: a byte of the bitmap, the video matrix or the colour
  RAM holds the byte of the stream at its offset (2, 8002 and 9002 bytes into the stream)
  whenever the stream reaches that far, and this includes the leading bytes of the field
  whose read fell short; every other byte keeps its fallback value (\<open>0x1b\<close>, \<open>0x25\<close>,
  \<open>0x06\<close>, and \<open>0x00\<close> for the background); the stream is used up; the program
  goes on to status 0 and writes the warning once.
\<close>

theorem short_read_fallback:
  assumes "length koalafile < 10003" and "i < 8000" and "j < 1000"
  shows "\<exists>im oc.
           read_koala koalafile = (im, [], False)
         \<and> length (bitmap im) = 8000 \<and> length (video im) = 1000 \<and> length (color im) = 1000
         \<and> bitmap im ! i = (if i + 2 < length koalafile then koalafile ! (i + 2) else 0x1b)
         \<and> video im ! j = (if j + 8002 < length koalafile then koalafile ! (j + 8002) else 0x25)
         \<and> color im ! j = (if j + 9002 < length koalafile then koalafile ! (j + 9002) else 0x06)
         \<and> bg im = 0x00
         \<and> convert fp signed_char sat koalafile = Some oc
         \<and> exit_status oc = 0
         \<and> stderr oc = [File_too_short]"
  using assms wf_koala_image[of koalafile]
  by (simp add: read_koala_image convert_eq koala_image_bitmap koala_image_video
      koala_image_color wf_image_def) (simp add: koala_image_def)

theorem short_read_fallback_witness:
  "length [0x00, 0x60, 0xFF :: byte] < 10003
   \<and> (\<exists>im oc.
           read_koala [0x00, 0x60, 0xFF] = (im, [], False)
         \<and> bitmap im ! 0 = 0xFF \<and> bitmap im ! 1 = 0x1b
         \<and> video im ! 0 = 0x25 \<and> color im ! 0 = 0x06 \<and> bg im = 0x00
         \<and> convert exact_fp True (Fin 1) [0x00, 0x60, 0xFF] = Some oc
         \<and> stderr oc = [File_too_short])"
  using short_read_fallback[where koalafile = "[0x00, 0x60, 0xFF]" and i = 0 and j = 0
      and fp = exact_fp and signed_char = True and sat = "Fin 1"]
    short_read_fallback[where koalafile = "[0x00, 0x60, 0xFF]" and i = 1 and j = 0
      and fp = exact_fp and signed_char = True and sat = "Fin 1"]
  by auto

text \<open>
  Claim C5 as it was stated lets every byte keep its fallback value unless a read that
  succeeded has overwritten it. For a stream of three bytes, the load address and one byte
  more, the read of the bitmap returns 0, and yet the first byte of the bitmap is the
  third byte of the stream.
\<close>

theorem partial_read_counterexample:
  "fread (replicate 8000 0x1b) 8000 [0xFF] = (0xFF # replicate 7999 0x1b, [], False)
   \<and> snd (snd (read_koala [0x00, 0x60, 0xFF])) = False
   \<and> bitmap (fst (read_koala [0x00, 0x60, 0xFF])) ! 0 = 0xFF
   \<and> bitmap (fst (read_koala [0x00, 0x60, 0xFF])) ! 0 \<noteq> 0x1b"
  by (simp add: read_koala_image koala_image_bitmap fread_def)

text \<open>
  Claim C6. With the saturation 0, every one of the 16 palette entries is a grey: the
  chroma terms \<open>u\<close> and \<open>v\<close> are zero, and the red, green and blue components are equal.
\<close>

theorem zero_saturation_grey:
  assumes "rounding (to_float fp)" and "rounding (to_double fp)" and "i < 16"
  shows "yuv_u (c64_to_yuv fp (Fin 0) (c64_colors ! i)
                  (f_conv (to_float fp) (USCALE fp)) (f_conv (to_float fp) (VSCALE fp))) = Fin 0
       \<and> yuv_v (c64_to_yuv fp (Fin 0) (c64_colors ! i)
                  (f_conv (to_float fp) (USCALE fp)) (f_conv (to_float fp) (VSCALE fp))) = Fin 0
       \<and> rgb_r (init_colors fp (Fin 0) ! i) = rgb_g (init_colors fp (Fin 0) ! i)
       \<and> rgb_g (init_colors fp (Fin 0) ! i) = rgb_b (init_colors fp (Fin 0) ! i)"
proof -
  from yuv_zero_saturation(3)[OF assms] obtain y
    where y: "yuv_y (c64_to_yuv fp (Fin 0) (c64_colors ! i)
                  (f_conv (to_float fp) (USCALE fp)) (f_conv (to_float fp) (VSCALE fp))) = Fin y"
    by auto
  show ?thesis
    using yuv_zero_saturation(1,2)[OF assms]
      grey_rgb[OF assms(1,2) y yuv_zero_saturation(1,2)[OF assms]]
    by (simp add: init_colors_nth[OF assms(3)] c64_to_rgb_def)
qed

theorem zero_saturation_grey_witness:
  "(2::nat) < 16
   \<and> yuv_u (c64_to_yuv exact_fp (Fin 0) (c64_colors ! 2)
              (f_conv (to_float exact_fp) (USCALE exact_fp))
              (f_conv (to_float exact_fp) (VSCALE exact_fp))) = Fin 0
   \<and> rgb_r (init_colors exact_fp (Fin 0) ! 2) = 80
   \<and> rgb_g (init_colors exact_fp (Fin 0) ! 2) = 80
   \<and> rgb_b (init_colors exact_fp (Fin 0) ! 2) = 80"
  using zero_saturation_grey[OF rounding_exact_fp, where i = 2]
  by (simp add: grey_entry_2)

text \<open>
  Claim C7 says that every component of every palette entry is an integer from 0 to 255,
  since \<^verbatim>\<open>yuv_to_rgb\<close> clamps before it scales. The program does not keep to it: the
  saturation \<^verbatim>\<open>inf\<close> passes the test of \<^verbatim>\<open>getargs\<close>, its product with the saturation flag
  0 of black is NaN, the comparisons of \<^verbatim>\<open>BOUND\<close> are false for NaN and leave it as it is,
  and the three components of palette entry 0 become the value that the conversion to
  \<^verbatim>\<open>int\<close> gives for NaN.
\<close>

theorem infinite_saturation_palette:
  "getargs exact_fp [Opt_s PInf] [] = Inr (PInf, None)
   \<and> yuv_u (c64_to_yuv exact_fp PInf (c64_colors ! 0)
              (f_conv (to_float exact_fp) (USCALE exact_fp))
              (f_conv (to_float exact_fp) (VSCALE exact_fp))) = NaN
   \<and> linear_r exact_fp (c64_to_yuv exact_fp PInf (c64_colors ! 0)
              (f_conv (to_float exact_fp) (USCALE exact_fp))
              (f_conv (to_float exact_fp) (VSCALE exact_fp))) = NaN
   \<and> BOUND NaN = NaN
   \<and> scale_255 exact_fp NaN = - 2147483648
   \<and> init_colors exact_fp PInf ! 0
       = \<lparr>rgb_r = - 2147483648, rgb_g = - 2147483648, rgb_b = - 2147483648\<rparr>"
  by (simp add: inf_black getargs_def scale_255_NaN int_indefinite_exact BOUND_def
      c64_to_yuv_def linear_r_def c64_colors_def Let_def M_PI_def USCALE_def VSCALE_def
      exact_float exact_double exact_zero)

text \<open>
  Claim C8. The pixel reconstruction cannot fail on any decoded image: whatever the bytes
  of the bitmap, the video matrix, the colour RAM and the background are, and whether
  \<^verbatim>\<open>char\<close> is signed or not, a palette index is between 0 and 15 and a pixel code
  between 0 and 3 after the masking, every image that the decoder returns has arrays of
  the declared sizes, and for such an image the reconstruction and the writing of the
  pixmap run to their end with every array access inside its array. So no run of the
  program meets an undefined array access.
\<close>

theorem reconstruction_total:
  assumes "wf_image im" and "length c64colors = 16"
  shows "0 \<le> bg_index w \<and> bg_index w \<le> 15
       \<and> 0 \<le> hi_index signed_char w \<and> hi_index signed_char w \<le> 15
       \<and> 0 \<le> lo_index signed_char w \<and> lo_index signed_char w \<le> 15
       \<and> 0 \<le> pixel_code c b \<and> pixel_code c b \<le> 3
       \<and> wf_image (fst (read_koala koalafile))
       \<and> (\<exists>outimage out.
             reconstruct signed_char c64colors im = Some outimage
           \<and> write_ppm outimage = Some out)
       \<and> convert fp signed_char sat koalafile \<noteq> None
       \<and> main fp signed_char opts args files stdin \<noteq> None"
  using bg_index_range[of w] hi_index_range[of signed_char w] lo_index_range[of signed_char w]
    pixel_code_range[of c b] reconstruct_eq[OF assms, of signed_char]
  by (simp add: write_ppm_raster read_koala_image wf_koala_image convert_eq main_total)

theorem reconstruction_total_witness:
  "wf_image \<lparr>bitmap = replicate 8000 0xFF, video = replicate 1000 0xFF,
             color = replicate 1000 0xFF, bg = 0xFF\<rparr>
   \<and> length (init_colors exact_fp (Fin 1)) = 16
   \<and> hi_index True 0xFF = 15 \<and> lo_index True 0xFF = 15 \<and> pixel_code (char_val True 0xFF) 6 = 3
   \<and> (\<exists>outimage out.
         reconstruct True (init_colors exact_fp (Fin 1))
           \<lparr>bitmap = replicate 8000 0xFF, video = replicate 1000 0xFF,
             color = replicate 1000 0xFF, bg = 0xFF\<rparr> = Some outimage
       \<and> write_ppm outimage = Some out)
   \<and> main exact_fp True [] [] (\<lambda>name. None) [] \<noteq> None"
  using reconstruction_total[where im = "\<lparr>bitmap = replicate 8000 0xFF,
             video = replicate 1000 0xFF, color = replicate 1000 0xFF, bg = 0xFF\<rparr>"
      and c64colors = "init_colors exact_fp (Fin 1)" and signed_char = True and w = 0 and c = 0
      and b = 0 and koalafile = "[]" and fp = exact_fp and sat = "Fin 1" and opts = "[]"
      and args = "[]" and files = "\<lambda>name. None" and stdin = "[]"]
  by (simp add: wf_image_def length_init_colors hi_index_nibble lo_index_nibble pixel_code_bits)

text \<open>
  Claim C9 says that a saturation argument that parses to a negative value ends the
  program with an error. The program does not keep to it: \<^verbatim>\<open>atof\<close> returns the negative
  \<^verbatim>\<open>double\<close> \<open>-1e-50\<close> for the argument \<^verbatim>\<open>-1e-50\<close>, the assignment to the \<^verbatim>\<open>float\<close> variable
  makes it zero, the test \<^verbatim>\<open>saturation < 0\<close> is false, and the run goes on to status 0 and
  a pixmap of 96015 bytes; the only message is the one about the input, which is empty here.
\<close>

theorem tiny_negative_saturation_accepted:
  "f_lt (Fin (- (1 / 10 ^ 50))) (Fin 0)
   \<and> f_conv (to_float exact_fp) (Fin (- (1 / 10 ^ 50))) = Fin 0
   \<and> getargs exact_fp [Opt_s (Fin (- (1 / 10 ^ 50)))] [] = Inr (Fin 0, None)
   \<and> exit_status (the (main exact_fp False [Opt_s (Fin (- (1 / 10 ^ 50)))] [] Map.empty [])) = 0
   \<and> length (stdout (the (main exact_fp False [Opt_s (Fin (- (1 / 10 ^ 50)))] [] Map.empty [])))
       = 96015
   \<and> stderr (the (main exact_fp False [Opt_s (Fin (- (1 / 10 ^ 50)))] [] Map.empty []))
       = [File_too_short]"
proof -
  have g: "getargs exact_fp [Opt_s (Fin (- (1 / 10 ^ 50)))] [] = Inr (Fin 0, None)"
    using tiny_negative by (simp add: getargs_def)
  have "main exact_fp False [Opt_s (Fin (- (1 / 10 ^ 50)))] [] Map.empty []
        = convert exact_fp False (Fin 0) []"
    by (rule main_convert[OF g]) (simp add: koala_stream_def)
  then show ?thesis
    using g tiny_negative by (simp add: convert_eq length_payload ppm_header_bytes)
qed

text \<open>
  Claim C10. For every input shorter than 10003 bytes the program still ends with status
  0 and still writes the whole pixmap of 96015 bytes to standard output, the header
  followed by the raster reconstructed from the image with its fallback bytes; the one
  other trace of the truncation is the warning.
\<close>

theorem short_input_full_output:
  assumes "getargs fp opts args = Inr (sat, koalafilename)"
    and "koala_stream files stdin koalafilename = Some koalafile"
    and "length koalafile < 10003"
  shows "\<exists>oc outimage.
           main fp signed_char opts args files stdin = Some oc
         \<and> exit_status oc = 0
         \<and> length (stdout oc) = 96015
         \<and> reconstruct signed_char (init_colors fp sat) (koala_image koalafile) = Some outimage
         \<and> stdout oc = ppm_header @ dump outimage
         \<and> stderr oc = [File_too_short]"
  using assms(3)
  by (simp add: main_convert[OF assms(1,2)] convert_eq
      reconstruct_eq[OF wf_koala_image length_init_colors] dump_raster length_payload
      ppm_header_bytes)

theorem short_input_full_output_witness:
  "getargs exact_fp [Opt_s (Fin 0)] [''-''] = Inr (Fin 0, None)
   \<and> koala_stream (\<lambda>name. None) [0x00, 0x60] None = Some [0x00, 0x60]
   \<and> length [0x00, 0x60 :: byte] < 10003
   \<and> (\<exists>oc. main exact_fp False [Opt_s (Fin 0)] [''-''] (\<lambda>name. None) [0x00, 0x60] = Some oc
         \<and> exit_status oc = 0 \<and> length (stdout oc) = 96015 \<and> stderr oc = [File_too_short])"
  using short_input_full_output[where opts = "[Opt_s (Fin 0)]" and args = "[''-'']"
      and sat = "Fin 0"
      and koalafilename = None and files = "\<lambda>name. None" and stdin = "[0x00, 0x60]"
      and koalafile = "[0x00, 0x60]" and signed_char = False and fp = exact_fp]
  by (simp add: getargs_def koala_stream_def exact_zero) blast

end
